theory Spec2Isabelle
  imports Main "HOL-Library.Word"
begin

unbundle bit_operations_syntax

section \<open>The sd-reader shell (main.c) over a model of the FAT library\<close>

text \<open>
  The repository's \<^verbatim>\<open>main.c\<close> is the shell of Roland Riegel's MMC/SD card library. The
  library itself (\<^verbatim>\<open>fat.c\<close>, \<^verbatim>\<open>partition.c\<close>, \<^verbatim>\<open>sd_raw.c\<close>, \<^verbatim>\<open>uart.c\<close>,
  \<^verbatim>\<open>RingBuffer.h\<close>) is not part of the sources at hand; the library calls that \<^verbatim>\<open>main.c\<close>
  makes are modelled from the specification and are marked as such. The functions of
  \<^verbatim>\<open>main.c\<close> are translated from the C text.

  C pointers to handles are addresses into explicit stores, \<open>0\<close> is the null pointer.
  A C string is the list of its characters; a character list is read up to its first
  NUL character or its end, whichever comes first.
\<close>

subsection \<open>C basics\<close>

type_synonym uint8_t = "8 word"
type_synonym ptr = nat
type_synonym cluster_t = nat

definition NUL :: char where
  "NUL = CHR 0x00"

text \<open>The characters of a C string held in a character array: everything before the
  first NUL.\<close>

definition c_str :: "string \<Rightarrow> string" where
  "c_str s = takeWhile (\<lambda>c. c \<noteq> NUL) s"

text \<open>\<^verbatim>\<open>strcmp\<close> of the C library: the difference of the first two differing characters
  (as unsigned char), \<open>0\<close> when both strings end together.\<close>

fun strcmp :: "string \<Rightarrow> string \<Rightarrow> int" where
  "strcmp [] [] = 0"
| "strcmp [] (y # ys) = - int (of_char y)"
| "strcmp (x # xs) [] = int (of_char x)"
| "strcmp (x # xs) (y # ys) =
     (if x \<noteq> y then int (of_char x) - int (of_char y)
      else if x = NUL then 0
      else strcmp xs ys)"

subsection \<open>Directory entries, the volume and the handle stores\<close>

text \<open>Modelled from the spec: \<^verbatim>\<open>struct fat_dir_entry_struct\<close>, declared in fat.h, which
  is not among the sources. \<^verbatim>\<open>main.c\<close> reads the fields \<^verbatim>\<open>long_name\<close>, \<^verbatim>\<open>attributes\<close>
  and \<^verbatim>\<open>file_size\<close>; the first cluster and the place of the entry in its directory are
  what the specification's DirectoryEntry and FileDescriptor carry (spec 3).\<close>

record fat_dir_entry_struct =
  long_name :: string
  attributes :: uint8_t
  cluster :: cluster_t
  file_size :: nat
  entry_dir :: cluster_t
  entry_slot :: nat

text \<open>Modelled from the spec: the macro \<^verbatim>\<open>FAT_ATTRIB_DIR\<close> of fat.h, the directory bit
  of the attribute byte of the on-disk format (spec 6).\<close>

definition FAT_ATTRIB_DIR :: uint8_t where
  "FAT_ATTRIB_DIR = 0x10"

text \<open>Modelled from the spec: a directory as \<^verbatim>\<open>fat.c\<close> reads it (spec 4.4), a list of
  slots, one per logical entry (a short-name entry together with its long-name run) or
  deleted-entry marker; the end of the list is the end-of-directory marker.\<close>

datatype dir_slot = Deleted | Entry fat_dir_entry_struct

text \<open>Modelled from the spec: an entry of the file allocation table (spec 4.3): free,
  the end of a chain, or the index of the next cluster.\<close>

datatype fat_link = Free | EndOfChain | Next cluster_t

text \<open>Modelled from the spec: \<^verbatim>\<open>struct fat_fs_struct\<close> of fat.c, the mounted volume: the
  specification's FilesystemDescriptor (spec 3) together with the state of the device
  behind it: the cluster size in bytes, the number of clusters (the
  usable clusters are \<open>2 ..< cluster_count + 2\<close>), the allocation table, the data
  clusters (a byte for every offset), the allocation hint, the cached free-cluster count,
  the slot count of the fixed root-directory region, and the directories (keyed by the
  directory's first cluster, \<open>0\<close> for the root directory). The device is the in-memory
  block device of spec 6, whose transfers do not fail.\<close>

record fat_fs_struct =
  cluster_size :: nat
  cluster_count :: nat
  fat :: "cluster_t \<Rightarrow> fat_link"
  cluster_data :: "cluster_t \<Rightarrow> nat \<Rightarrow> uint8_t"
  alloc_hint :: cluster_t
  free_count :: nat
  root_slots :: nat
  dirs :: "cluster_t \<Rightarrow> dir_slot list"

text \<open>Modelled from the spec: \<^verbatim>\<open>struct fat_dir_struct\<close> of fat.c, the specification's
  DirectoryHandle (spec 4.4): the directory a handle iterates and its cursor.\<close>

record fat_dir_struct =
  dd_entry :: fat_dir_entry_struct
  dd_cursor :: nat

text \<open>Modelled from the spec: \<^verbatim>\<open>struct fat_file_struct\<close> of fat.c, the specification's
  FileDescriptor (spec 3): the directory entry, the position and the current cluster.\<close>

record fat_file_struct =
  fd_entry :: fat_dir_entry_struct
  fd_pos :: nat
  fd_cluster :: cluster_t

text \<open>The machine state the shell runs on: the volume, the two handle stores, the
  characters sent to the UART, the global \<^verbatim>\<open>char buffer[20]\<close> of main.c, and the
  receive side. \<open>rx\<close> lists the characters still to be received, each with the number of
  times the receive queue is found empty before the interrupt routine has put the
  character there.

  \<open>rewinds_at_end\<close> is a property of the library, not of the card: whether
  \<^verbatim>\<open>fat_read_dir\<close> rewinds a handle by itself when it reports the end of the
  directory. The specification does not say, and \<^verbatim>\<open>fat.c\<close> is not among the sources, so
  both behaviours are kept. No operation changes the field.\<close>

record machine =
  volume :: fat_fs_struct
  dir_handles :: "ptr \<rightharpoonup> fat_dir_struct"
  file_handles :: "ptr \<rightharpoonup> fat_file_struct"
  next_handle :: ptr
  uart_out :: string
  global_buffer :: string
  rx :: "(nat \<times> char) list"
  rewinds_at_end :: bool

text \<open>Modelled from the spec: the failure values of the library (spec 7).\<close>

datatype fat_error = BadHandle | CorruptChain | NoSpace | InvalidFormat

subsection \<open>Library calls used by the shell\<close>

text \<open>Modelled from the spec: \<^verbatim>\<open>fat_read_dir\<close> of fat.c, which is not among the sources.
  Spec 4.4: read_next advances a cursor through the directory, decoding one logical entry
  per call; deleted-entry markers are skipped and the end-of-directory marker terminates
  the iteration. The scan starts at the cursor and yields the first live entry with its
  slot index.\<close>

fun scan_slots :: "dir_slot list \<Rightarrow> nat \<Rightarrow> (nat \<times> fat_dir_entry_struct) option" where
  "scan_slots [] i = None"
| "scan_slots (Deleted # ss) i = scan_slots ss (Suc i)"
| "scan_slots (Entry e # ss) i = Some (i, e)"

text \<open>Modelled from the spec: \<^verbatim>\<open>fat_read_dir(dd, dir_entry)\<close> of fat.c. It returns 1
  and the decoded entry, leaving the cursor behind that entry, or returns 0 at the end of
  the directory, leaving the entry of the caller untouched. Where the cursor stands after
  the end has been reported is not said in spec 4.4: it stays at the end, or, when the
  library rewinds by itself, goes back to the start. A null or closed handle gives 0.\<close>

definition fat_read_dir ::
  "ptr \<Rightarrow> fat_dir_entry_struct \<Rightarrow> machine \<Rightarrow> uint8_t \<times> fat_dir_entry_struct \<times> machine" where
  "fat_read_dir dd dir_entry m =
     (case dir_handles m dd of
        None \<Rightarrow> (0, dir_entry, m)
      | Some h \<Rightarrow>
          (let d = cluster (dd_entry h);
               slots = dirs (volume m) d
           in case scan_slots (drop (dd_cursor h) slots) (dd_cursor h) of
                None \<Rightarrow>
                  (0, dir_entry,
                   m\<lparr>dir_handles := (dir_handles m)
                        (dd \<mapsto> h\<lparr>dd_cursor := (if rewinds_at_end m then 0
                                              else max (dd_cursor h) (length slots))\<rparr>)\<rparr>)
              | Some (i, e) \<Rightarrow>
                  (1, e\<lparr>entry_dir := d, entry_slot := i\<rparr>,
                   m\<lparr>dir_handles := (dir_handles m) (dd \<mapsto> h\<lparr>dd_cursor := Suc i\<rparr>)\<rparr>)))"

text \<open>Modelled from the spec: \<^verbatim>\<open>fat_reset_dir(dd)\<close>, spec 4.4: reset() rewinds the
  cursor.\<close>

definition fat_reset_dir :: "ptr \<Rightarrow> machine \<Rightarrow> machine" where
  "fat_reset_dir dd m =
     (case dir_handles m dd of
        None \<Rightarrow> m
      | Some h \<Rightarrow> m\<lparr>dir_handles := (dir_handles m) (dd \<mapsto> h\<lparr>dd_cursor := 0\<rparr>)\<rparr>)"

text \<open>Modelled from the spec: \<^verbatim>\<open>fat_open_file(fs, dir_entry)\<close>, spec 4.5:
  open(filesystem, dir_entry) gives a file handle positioned at the start of the file. The
  callers in \<^verbatim>\<open>main.c\<close> test the result for null; the model returns null for an entry
  that carries the directory attribute.\<close>

definition fat_open_file :: "ptr \<Rightarrow> fat_dir_entry_struct \<Rightarrow> machine \<Rightarrow> ptr \<times> machine" where
  "fat_open_file fs dir_entry m =
     (if attributes dir_entry AND FAT_ATTRIB_DIR \<noteq> 0 then (0, m)
      else
        (let fd = Suc (next_handle m)
         in (fd, m\<lparr>file_handles := (file_handles m)
                     (fd \<mapsto> \<lparr>fd_entry = dir_entry, fd_pos = 0, fd_cluster = cluster dir_entry\<rparr>),
                   next_handle := fd\<rparr>)))"

subsection \<open>Library calls: the allocation table\<close>

text \<open>Modelled from the spec: the table access of \<^verbatim>\<open>fat.c\<close>, which is not among the
  sources. Spec 4.3: get_next_cluster(n) reads the table entry of a cluster.\<close>

definition get_next_cluster :: "fat_fs_struct \<Rightarrow> cluster_t \<Rightarrow> fat_link" where
  "get_next_cluster v n = fat v n"

text \<open>Modelled from the spec: set_next_cluster(n, value) of spec 4.3 writes the table
  entry of a cluster.\<close>

definition set_next_cluster :: "fat_fs_struct \<Rightarrow> cluster_t \<Rightarrow> fat_link \<Rightarrow> fat_fs_struct" where
  "set_next_cluster v n x = v\<lparr>fat := (fat v) (n := x)\<rparr>"

text \<open>Modelled from the spec: the order in which allocate_cluster of fat.c looks at the
  clusters. Spec 4.3: a linear scan starting at the allocation hint, wrapping at the end of
  the cluster range back to cluster 2. A hint outside the range counts as cluster 2.\<close>

definition scan_order :: "fat_fs_struct \<Rightarrow> cluster_t list" where
  "scan_order v =
     (let hi = cluster_count v + 2;
          h = (if 2 \<le> alloc_hint v \<and> alloc_hint v < hi then alloc_hint v else 2)
      in [h..<hi] @ [2..<h])"

text \<open>Modelled from the spec: allocate_cluster of fat.c. Spec 4.3: returns the first
  cluster marked free, or NoSpace (here \<open>None\<close>); updates the hint to the cluster following
  the one returned; the cached free count is decremented. The cluster is taken by writing
  the terminal marker into its table entry (spec 3, ClusterChain: the terminal marker is
  written to the new final link before the old final link is overwritten).\<close>

definition allocate_cluster :: "fat_fs_struct \<Rightarrow> (cluster_t \<times> fat_fs_struct) option" where
  "allocate_cluster v =
     (case find (\<lambda>c. get_next_cluster v c = Free) (scan_order v) of
        None \<Rightarrow> None
      | Some c \<Rightarrow>
          Some (c, (set_next_cluster v c EndOfChain)
                     \<lparr>alloc_hint := Suc c, free_count := free_count v - 1\<rparr>))"

text \<open>Modelled from the spec: walking a chain for a number of hops (spec 4.5, seek:
  walking the chain from the start cluster for the required number of cluster-hops).\<close>

fun walk_chain :: "fat_fs_struct \<Rightarrow> cluster_t \<Rightarrow> nat \<Rightarrow> cluster_t option" where
  "walk_chain v c 0 = Some c"
| "walk_chain v c (Suc n) =
     (case get_next_cluster v c of
        Next c' \<Rightarrow> walk_chain v c' n
      | EndOfChain \<Rightarrow> None
      | Free \<Rightarrow> None)"

text \<open>Modelled from the spec: the clusters of a chain, the walk bounded by a number of
  iterations as in spec 4.3.\<close>

fun chain_from :: "fat_fs_struct \<Rightarrow> nat \<Rightarrow> cluster_t \<Rightarrow> cluster_t list" where
  "chain_from v 0 c = []"
| "chain_from v (Suc n) c =
     c # (case get_next_cluster v c of
            Next c' \<Rightarrow> chain_from v n c'
          | EndOfChain \<Rightarrow> []
          | Free \<Rightarrow> [])"

subsection \<open>Library calls: files\<close>

text \<open>Modelled from the spec: the byte store behind the sector cache of fat.c and
  sd_raw.c; one byte of a data cluster is overwritten.\<close>

definition store_byte :: "fat_fs_struct \<Rightarrow> cluster_t \<Rightarrow> nat \<Rightarrow> uint8_t \<Rightarrow> fat_fs_struct" where
  "store_byte v c off b =
     v\<lparr>cluster_data := (cluster_data v) (c := (cluster_data v c) (off := b))\<rparr>"

text \<open>Modelled from the spec: the cluster step of \<^verbatim>\<open>fat_write_file\<close> of fat.c. Spec 4.5:
  when the current cluster is exhausted and more data remains, write allocates the next
  cluster and links it. The current cluster of a descriptor holds the byte before the
  position when the position is on a cluster border, the byte at the position otherwise;
  so the cluster is exhausted when the position is a positive multiple of the cluster
  size. A file without a cluster (first cluster 0) gets its first one. An existing link
  is followed; a free link inside a chain is a corrupt chain.\<close>

definition write_cluster ::
  "fat_fs_struct \<Rightarrow> fat_file_struct \<Rightarrow> fat_error + (fat_fs_struct \<times> fat_file_struct)" where
  "write_cluster v f =
     (if fd_cluster f = 0 then
        (if fd_pos f \<noteq> 0 then Inl CorruptChain
         else
           (case allocate_cluster v of
              None \<Rightarrow> Inl NoSpace
            | Some (c, v') \<Rightarrow>
                Inr (v', f\<lparr>fd_entry := (fd_entry f)\<lparr>cluster := c\<rparr>, fd_cluster := c\<rparr>)))
      else if 0 < fd_pos f \<and> fd_pos f mod cluster_size v = 0 then
        (case get_next_cluster v (fd_cluster f) of
           Next c \<Rightarrow> Inr (v, f\<lparr>fd_cluster := c\<rparr>)
         | EndOfChain \<Rightarrow>
             (case allocate_cluster v of
                None \<Rightarrow> Inl NoSpace
              | Some (c, v') \<Rightarrow>
                  Inr (set_next_cluster v' (fd_cluster f) (Next c), f\<lparr>fd_cluster := c\<rparr>))
         | Free \<Rightarrow> Inl CorruptChain)
      else Inr (v, f))"

text \<open>Modelled from the spec: the copy loop of \<^verbatim>\<open>fat_write_file\<close> of fat.c, byte by
  byte, counting the bytes stored. Spec 4.5: if allocation fails, write returns the partial
  count written so far.\<close>

fun write_bytes ::
  "uint8_t list \<Rightarrow> nat \<Rightarrow> fat_fs_struct \<Rightarrow> fat_file_struct
     \<Rightarrow> (fat_error + nat) \<times> fat_fs_struct \<times> fat_file_struct" where
  "write_bytes [] n v f = (Inr n, v, f)"
| "write_bytes (b # bs) n v f =
     (case write_cluster v f of
        Inl e \<Rightarrow> (if e = NoSpace then Inr n else Inl e, v, f)
      | Inr (v', f') \<Rightarrow>
          write_bytes bs (Suc n)
            (store_byte v' (fd_cluster f') (fd_pos f' mod cluster_size v') b)
            (f'\<lparr>fd_pos := Suc (fd_pos f')\<rparr>))"

text \<open>Modelled from the spec: the size kept in the descriptor grows with the position
  (spec 3, FileDescriptor: the size change is not visible on disk until the owning
  directory entry is rewritten).\<close>

definition grow_size :: "fat_file_struct \<Rightarrow> fat_file_struct" where
  "grow_size f =
     (if file_size (fd_entry f) < fd_pos f
      then f\<lparr>fd_entry := (fd_entry f)\<lparr>file_size := fd_pos f\<rparr>\<rparr> else f)"

text \<open>Modelled from the spec: the situation in which the cluster step of
  \<^verbatim>\<open>fat_write_file\<close> has to allocate (spec 4.5): the file has no cluster
  yet, or the position stands at the end of the last cluster of the chain.\<close>

definition needs_cluster :: "fat_fs_struct \<Rightarrow> fat_file_struct \<Rightarrow> bool" where
  "needs_cluster v f \<longleftrightarrow>
     (fd_cluster f = 0 \<and> fd_pos f = 0)
     \<or> (fd_cluster f \<noteq> 0 \<and> 0 < fd_pos f \<and> fd_pos f mod cluster_size v = 0
        \<and> get_next_cluster v (fd_cluster f) = EndOfChain)"

text \<open>Modelled from the spec: \<^verbatim>\<open>fat_write_file(fd, buffer, buffer_len)\<close> of fat.c, the
  buffer given as the list of its \<^verbatim>\<open>buffer_len\<close> bytes. The result is a failure value
  or the count of bytes written. A null or closed handle is a failure.\<close>

definition fat_write_file :: "ptr \<Rightarrow> uint8_t list \<Rightarrow> machine \<Rightarrow> (fat_error + nat) \<times> machine" where
  "fat_write_file fd buf m =
     (case file_handles m fd of
        None \<Rightarrow> (Inl BadHandle, m)
      | Some f \<Rightarrow>
          (case write_bytes buf 0 (volume m) f of
             (r, v', f') \<Rightarrow>
               (r, m\<lparr>volume := v', file_handles := (file_handles m) (fd \<mapsto> grow_size f')\<rparr>)))"

text \<open>Modelled from the spec: the cluster step of \<^verbatim>\<open>fat_read_file\<close> of fat.c. Spec 4.5:
  read walks the chain from the current cluster. A chain that ends before the size of
  the file is reached is a corrupt chain.\<close>

definition read_cluster :: "fat_fs_struct \<Rightarrow> fat_file_struct \<Rightarrow> fat_error + fat_file_struct" where
  "read_cluster v f =
     (if fd_cluster f = 0 then Inl CorruptChain
      else if 0 < fd_pos f \<and> fd_pos f mod cluster_size v = 0 then
        (case get_next_cluster v (fd_cluster f) of
           Next c \<Rightarrow> Inr (f\<lparr>fd_cluster := c\<rparr>)
         | EndOfChain \<Rightarrow> Inl CorruptChain
         | Free \<Rightarrow> Inl CorruptChain)
      else Inr f)"

text \<open>Modelled from the spec: the copy loop of \<^verbatim>\<open>fat_read_file\<close> of fat.c, byte by byte.
  Spec 4.5: read returns fewer bytes than requested only at the end of the file (the size
  boundary).\<close>

fun read_bytes ::
  "nat \<Rightarrow> fat_fs_struct \<Rightarrow> fat_file_struct \<Rightarrow> (fat_error + uint8_t list) \<times> fat_file_struct" where
  "read_bytes 0 v f = (Inr [], f)"
| "read_bytes (Suc n) v f =
     (if file_size (fd_entry f) \<le> fd_pos f then (Inr [], f)
      else
        (case read_cluster v f of
           Inl e \<Rightarrow> (Inl e, f)
         | Inr f' \<Rightarrow>
             (case read_bytes n v (f'\<lparr>fd_pos := Suc (fd_pos f')\<rparr>) of
                (Inl e, g) \<Rightarrow> (Inl e, g)
              | (Inr bs, g) \<Rightarrow>
                  (Inr (cluster_data v (fd_cluster f') (fd_pos f' mod cluster_size v) # bs), g))))"

text \<open>Modelled from the spec: \<^verbatim>\<open>fat_read_file(fd, buffer, buffer_len)\<close> of fat.c. The
  result is a failure value or the bytes put into the buffer; the count the C function
  returns is their number.\<close>

definition fat_read_file :: "ptr \<Rightarrow> nat \<Rightarrow> machine \<Rightarrow> (fat_error + uint8_t list) \<times> machine" where
  "fat_read_file fd max_length m =
     (case file_handles m fd of
        None \<Rightarrow> (Inl BadHandle, m)
      | Some f \<Rightarrow>
          (case read_bytes max_length (volume m) f of
             (r, f') \<Rightarrow> (r, m\<lparr>file_handles := (file_handles m) (fd \<mapsto> f')\<rparr>)))"

text \<open>Modelled from the spec: the directory update of \<^verbatim>\<open>fat_close_file\<close> of fat.c. Spec
  4.5: close, if the size changed, rewrites the owning directory entry; the entry is
  rewritten from the descriptor, with its size and its first cluster.\<close>

definition write_back :: "fat_file_struct \<Rightarrow> fat_fs_struct \<Rightarrow> fat_fs_struct" where
  "write_back f v =
     (let e = fd_entry f; slots = dirs v (entry_dir e)
      in if entry_slot e < length slots then
           (case slots ! entry_slot e of
              Deleted \<Rightarrow> v
            | Entry e0 \<Rightarrow>
                if file_size e0 = file_size e then v
                else v\<lparr>dirs := (dirs v) (entry_dir e := slots[entry_slot e := Entry e])\<rparr>)
         else v)"

text \<open>Modelled from the spec: \<^verbatim>\<open>fat_close_file(fd)\<close> of fat.c; the handle is released.\<close>

definition fat_close_file :: "ptr \<Rightarrow> machine \<Rightarrow> machine" where
  "fat_close_file fd m =
     (case file_handles m fd of
        None \<Rightarrow> m
      | Some f \<Rightarrow> m\<lparr>volume := write_back f (volume m),
                     file_handles := (file_handles m) (fd := None)\<rparr>)"

text \<open>Modelled from the spec: \<^verbatim>\<open>fat_seek_file(fd, &offset, FAT_SEEK_SET)\<close> of fat.c.
  Spec 4.5: seek computes the target cluster by walking the chain from the start cluster;
  seeking past the current size is permitted. The result is 1, or 0 for a null handle, a
  negative offset or a chain that is too short.\<close>

definition fat_seek_file :: "ptr \<Rightarrow> int \<Rightarrow> machine \<Rightarrow> uint8_t \<times> machine" where
  "fat_seek_file fd offset m =
     (case file_handles m fd of
        None \<Rightarrow> (0, m)
      | Some f \<Rightarrow>
          if offset < 0 then (0, m)
          else if offset = 0 then
            (1, m\<lparr>file_handles := (file_handles m)
                    (fd \<mapsto> f\<lparr>fd_pos := 0, fd_cluster := cluster (fd_entry f)\<rparr>)\<rparr>)
          else if cluster (fd_entry f) = 0 then (0, m)
          else
            (case walk_chain (volume m) (cluster (fd_entry f))
                    ((nat offset - 1) div cluster_size (volume m)) of
               None \<Rightarrow> (0, m)
             | Some c \<Rightarrow>
                 (1, m\<lparr>file_handles := (file_handles m)
                         (fd \<mapsto> f\<lparr>fd_pos := nat offset, fd_cluster := c\<rparr>)\<rparr>)))"

subsection \<open>Chains as lists\<close>

text \<open>For stating what a file holds: a list of clusters is a chain in the table when
  each is linked to the next and none is the reserved cluster 0; the byte of a file at a
  position is the byte at the offset in the cluster that the position falls into.\<close>

fun links :: "fat_fs_struct \<Rightarrow> cluster_t list \<Rightarrow> bool" where
  "links v [] = True"
| "links v [c] = (c \<noteq> 0)"
| "links v (c # d # cl) = (c \<noteq> 0 \<and> get_next_cluster v c = Next d \<and> links v (d # cl))"

definition file_byte :: "fat_fs_struct \<Rightarrow> cluster_t list \<Rightarrow> nat \<Rightarrow> uint8_t" where
  "file_byte v cl i = cluster_data v (cl ! (i div cluster_size v)) (i mod cluster_size v)"

text \<open>The number of free clusters of the volume, counted in the table.\<close>

definition free_clusters :: "fat_fs_struct \<Rightarrow> nat" where
  "free_clusters v =
     length (filter (\<lambda>c. get_next_cluster v c = Free) [2..<cluster_count v + 2])"


subsection \<open>Library calls: creating entries, directory handles\<close>

text \<open>Modelled from the spec: the size of the region of a directory that
  \<^verbatim>\<open>fat_create_file\<close> of fat.c searches: the fixed slot count of the root region, or one
  slot per 32 bytes of the directory's chain (spec 4.4, 6).\<close>

definition region_slots :: "fat_fs_struct \<Rightarrow> cluster_t \<Rightarrow> nat" where
  "region_slots v d =
     (if d = 0 then root_slots v
      else length (chain_from v (cluster_count v) d) * (cluster_size v div 32))"

text \<open>Modelled from the spec: the first reusable deleted slot of a directory
  (spec 4.4, create_entry).\<close>

fun first_deleted :: "dir_slot list \<Rightarrow> nat \<Rightarrow> nat option" where
  "first_deleted [] i = None"
| "first_deleted (Deleted # ss) i = Some i"
| "first_deleted (Entry e # ss) i = first_deleted ss (Suc i)"

text \<open>Modelled from the spec: the slot search of \<^verbatim>\<open>fat_create_file\<close> of fat.c. Spec 4.4,
  create_entry: scans for a reusable deleted slot or the first unused slot at the end of
  the region, extending the directory's chain by one cluster if the region is full; this
  fails for the fixed root region, which cannot grow.\<close>

definition place_entry :: "fat_fs_struct \<Rightarrow> cluster_t \<Rightarrow> (nat \<times> fat_fs_struct) option" where
  "place_entry v d =
     (let slots = dirs v d; chain = chain_from v (cluster_count v) d
      in case first_deleted slots 0 of
           Some i \<Rightarrow> Some (i, v)
         | None \<Rightarrow>
             if length slots < region_slots v d then Some (length slots, v)
             else if d = 0 \<or> chain = [] then None
             else
               (case allocate_cluster v of
                  None \<Rightarrow> None
                | Some (c, v') \<Rightarrow>
                    Some (length slots, set_next_cluster v' (last chain) (Next c))))"

text \<open>Modelled from the spec: \<^verbatim>\<open>fat_create_file(parent, file, dir_entry)\<close> of fat.c.
  Spec 4.4, create_entry: the new entry, an empty file without a cluster, is written to
  the slot found; the result is 1 and the entry, or 0 when there is no room (NoSpace) or
  the handle is null or closed. The name kept is the C string behind \<^verbatim>\<open>file\<close>.\<close>

definition fat_create_file ::
  "ptr \<Rightarrow> string \<Rightarrow> fat_dir_entry_struct \<Rightarrow> machine
     \<Rightarrow> uint8_t \<times> fat_dir_entry_struct \<times> machine" where
  "fat_create_file parent file dir_entry m =
     (case dir_handles m parent of
        None \<Rightarrow> (0, dir_entry, m)
      | Some h \<Rightarrow>
          (let d = cluster (dd_entry h)
           in case place_entry (volume m) d of
                None \<Rightarrow> (0, dir_entry, m)
              | Some (i, v') \<Rightarrow>
                  (let e = \<lparr>long_name = c_str file, attributes = 0, cluster = 0,
                             file_size = 0, entry_dir = d, entry_slot = i\<rparr>;
                       slots = dirs v' d;
                       slots' = (if i < length slots then slots[i := Entry e]
                                 else slots @ [Entry e])
                   in (1, e, m\<lparr>volume := v'\<lparr>dirs := (dirs v') (d := slots')\<rparr>\<rparr>))))"

text \<open>Modelled from the spec: \<^verbatim>\<open>fat_open_dir(fs, dir_entry)\<close> of fat.c. Spec 4.4:
  open(filesystem, dir_entry) gives a directory handle with its cursor at the start. The
  callers in \<^verbatim>\<open>main.c\<close> test the result for null; the model returns null for an entry
  without the directory attribute.\<close>

definition fat_open_dir :: "ptr \<Rightarrow> fat_dir_entry_struct \<Rightarrow> machine \<Rightarrow> ptr \<times> machine" where
  "fat_open_dir fs dir_entry m =
     (if attributes dir_entry AND FAT_ATTRIB_DIR = 0 then (0, m)
      else
        (let dd = Suc (next_handle m)
         in (dd, m\<lparr>dir_handles := (dir_handles m)
                     (dd \<mapsto> \<lparr>dd_entry = dir_entry, dd_cursor = 0\<rparr>),
                   next_handle := dd\<rparr>)))"

text \<open>Modelled from the spec: \<^verbatim>\<open>fat_close_dir(dd)\<close> of fat.c; the handle is released.\<close>

definition fat_close_dir :: "ptr \<Rightarrow> machine \<Rightarrow> machine" where
  "fat_close_dir dd m = m\<lparr>dir_handles := (dir_handles m) (dd := None)\<rparr>"

subsection \<open>Library calls: UART and receive queue\<close>

text \<open>Modelled from the spec: \<^verbatim>\<open>uart_putc\<close> of uart.c, which is not among the sources
  (spec 1: serial I/O is an external collaborator); the character sent is appended to
  the output.\<close>

definition uart_putc :: "char \<Rightarrow> machine \<Rightarrow> machine" where
  "uart_putc c m = m\<lparr>uart_out := uart_out m @ [c]\<rparr>"

text \<open>Modelled from the spec: \<^verbatim>\<open>uart_puts\<close> of uart.c sends the characters of a C
  string.\<close>

definition uart_puts :: "string \<Rightarrow> machine \<Rightarrow> machine" where
  "uart_puts str m = m\<lparr>uart_out := uart_out m @ c_str str\<rparr>"

text \<open>Modelled from the spec: \<^verbatim>\<open>uart_puts_p\<close> of uart.c sends a C string held in
  program memory.\<close>

definition uart_puts_p :: "string \<Rightarrow> machine \<Rightarrow> machine" where
  "uart_puts_p str m = uart_puts str m"

text \<open>Modelled from the spec: \<^verbatim>\<open>RingBuffer_IsEmpty\<close> of RingBuffer.h, which is not among
  the sources, on the receive queue that the interrupt routine at the end of main.c fills
  (spec 1: the interrupt-fed receive queue is an external collaborator). Finding the queue
  empty lets one unit of the waiting time of the next character pass.\<close>

definition RingBuffer_IsEmpty :: "machine \<Rightarrow> bool \<times> machine" where
  "RingBuffer_IsEmpty m =
     (case rx m of
        [] \<Rightarrow> (True, m)
      | (0, c) # r \<Rightarrow> (False, m)
      | (Suc d, c) # r \<Rightarrow> (True, m\<lparr>rx := (d, c) # r\<rparr>))"

text \<open>Modelled from the spec: \<^verbatim>\<open>RingBuffer_Remove\<close> of RingBuffer.h takes the character
  at the head of the receive queue. Removing from an empty queue does not happen in
  main.c; the model gives NUL.\<close>

definition RingBuffer_Remove :: "machine \<Rightarrow> char \<times> machine" where
  "RingBuffer_Remove m =
     (case rx m of
        [] \<Rightarrow> (NUL, m)
      | (d, c) # r \<Rightarrow> (c, m\<lparr>rx := r\<rparr>))"

subsection \<open>main.c: reading a line\<close>

text \<open>The inner loop of \<^verbatim>\<open>read_line\<close>, main.c lines 789 to 793:
  \<^verbatim>\<open>while(RingBuffer_IsEmpty(&Buffer_Rx)) if(i++>1000) return 0;\<close> with \<^verbatim>\<open>i\<close> starting at
  0. The result tells whether a character is ready (\<open>True\<close>) or the function gives up.
  \<^verbatim>\<open>i\<close> is a \<^verbatim>\<open>uint16_t\<close> that never passes 1002.\<close>

function rx_poll :: "nat \<Rightarrow> machine \<Rightarrow> bool \<times> machine" where
  "rx_poll i m =
     (case RingBuffer_IsEmpty m of
        (is_empty, m') \<Rightarrow>
          if is_empty then (if i > 1000 then (False, m') else rx_poll (Suc i) m')
          else (True, m'))"
  by pat_completeness auto
termination
  by (relation "measure (\<lambda>(i, m). 1001 - i)") auto

text \<open>\<^verbatim>\<open>memset(buffer, 0, n)\<close> on a character array given as the list of its elements.\<close>

definition memset :: "string \<Rightarrow> nat \<Rightarrow> string" where
  "memset buffer n = replicate (min n (length buffer)) NUL @ drop n buffer"

text \<open>The outer loop of \<^verbatim>\<open>read_line\<close>, main.c lines 786 to 817. \<^verbatim>\<open>buffer_length\<close> and
  \<^verbatim>\<open>read_length\<close> are \<^verbatim>\<open>uint8_t\<close>; the comparison is made on \<^verbatim>\<open>int\<close>, as C promotes
  them, and \<^verbatim>\<open>read_length\<close> stays below \<^verbatim>\<open>buffer_length\<close>, so it does not wrap.\<close>

function read_line_loop :: "string \<Rightarrow> nat \<Rightarrow> nat \<Rightarrow> machine \<Rightarrow> nat \<times> string \<times> machine" where
  "read_line_loop buffer buffer_length read_length m =
     (if int read_length < int buffer_length - 1 then
        (case rx_poll 0 m of
           (ready, m1) \<Rightarrow>
             if \<not> ready then (0, buffer, m1)
             else
               (case RingBuffer_Remove m1 of
                  (c, m2) \<Rightarrow>
                    if c = CHR 0x0A then (read_length, buffer[read_length := NUL], m2)
                    else read_line_loop (buffer[read_length := c]) buffer_length
                           (Suc read_length) m2))
      else (read_length, buffer, m))"
  by pat_completeness auto
termination
  by (relation "measure (\<lambda>(b, n, r, m). n - r)") auto

text \<open>\<^verbatim>\<open>read_line\<close>, main.c lines 781 to 818: the result and the buffer as the function
  leaves it.\<close>

definition read_line :: "string \<Rightarrow> nat \<Rightarrow> machine \<Rightarrow> nat \<times> string \<times> machine" where
  "read_line buffer buffer_length m =
     read_line_loop (memset buffer buffer_length) buffer_length 0 m"

declare rx_poll.simps [simp del] read_line_loop.simps [simp del]

text \<open>\<^verbatim>\<open>strtolong\<close>, main.c lines 820 to 827, on \<^verbatim>\<open>uint32_t\<close>; the end of the list is the
  terminating NUL.\<close>

fun strtolong_loop :: "string \<Rightarrow> 32 word \<Rightarrow> 32 word" where
  "strtolong_loop [] l = l"
| "strtolong_loop (c # str) l =
     (if (48::nat) \<le> of_char c \<and> of_char c \<le> (57::nat)
      then strtolong_loop str (l * 10 + (of_char c - 48))
      else l)"

definition strtolong :: "string \<Rightarrow> 32 word" where
  "strtolong str = strtolong_loop str 0"

subsection \<open>main.c: name lookup\<close>

text \<open>The number of slots the cursor of a handle has still to pass; the loop of
  \<^verbatim>\<open>find_file_in_dir\<close> ends because every successful read lowers it.\<close>

definition slots_left :: "ptr \<Rightarrow> machine \<Rightarrow> nat" where
  "slots_left dd m =
     (case dir_handles m dd of
        None \<Rightarrow> 0
      | Some h \<Rightarrow> length (dirs (volume m) (cluster (dd_entry h))) - dd_cursor h)"

lemma scan_slots_bounds:
  "scan_slots ss i = Some (j, e) \<Longrightarrow> i \<le> j \<and> j < i + length ss \<and> ss ! (j - i) = Entry e"
  by (induction ss i rule: scan_slots.induct) (auto simp: nth_Cons')

lemma fat_read_dir_decreases:
  "fat_read_dir dd e m = (r, e', m') \<Longrightarrow> r \<noteq> 0 \<Longrightarrow> slots_left dd m' < slots_left dd m"
  by (auto simp: fat_read_dir_def slots_left_def Let_def split: option.splits dest!: scan_slots_bounds)

text \<open>\<^verbatim>\<open>find_file_in_dir\<close>, main.c lines 829 to 841. The parameter \<^verbatim>\<open>fs\<close> is not used by
  the C function; the struct behind \<^verbatim>\<open>dir_entry\<close> is passed in and handed back.\<close>

function find_file_in_dir ::
  "ptr \<Rightarrow> ptr \<Rightarrow> string \<Rightarrow> fat_dir_entry_struct \<Rightarrow> machine
     \<Rightarrow> uint8_t \<times> fat_dir_entry_struct \<times> machine" where
  "find_file_in_dir fs dd name dir_entry m =
     (case fat_read_dir dd dir_entry m of
        (r, dir_entry', m') \<Rightarrow>
          if r \<noteq> 0 then
            if strcmp (long_name dir_entry') name = 0 then (1, dir_entry', fat_reset_dir dd m')
            else find_file_in_dir fs dd name dir_entry' m'
          else (0, dir_entry', m'))"
  by pat_completeness auto
termination
  by (relation "measure (\<lambda>(fs, dd, name, e, m). slots_left dd m)")
     (auto dest: fat_read_dir_decreases[OF sym])

text \<open>A struct on the stack that the C code does not initialise. Its contents are
  indeterminate in C; the model starts it zeroed. The callers below use it only after
  \<^verbatim>\<open>find_file_in_dir\<close> or \<^verbatim>\<open>fat_create_file\<close> has filled it.\<close>

definition indeterminate_entry :: fat_dir_entry_struct where
  "indeterminate_entry = \<lparr>long_name = [], attributes = 0, cluster = 0, file_size = 0,
                           entry_dir = 0, entry_slot = 0\<rparr>"

text \<open>\<^verbatim>\<open>open_file_in_dir\<close>, main.c lines 843 to 850.\<close>

definition open_file_in_dir :: "ptr \<Rightarrow> ptr \<Rightarrow> string \<Rightarrow> machine \<Rightarrow> ptr \<times> machine" where
  "open_file_in_dir fs dd name m =
     (case find_file_in_dir fs dd name indeterminate_entry m of
        (r, file_entry, m') \<Rightarrow>
          if r = 0 then (0, m') else fat_open_file fs file_entry m')"

text \<open>\<^verbatim>\<open>make_file\<close>, main.c lines 460 to 466.\<close>

definition make_file :: "ptr \<Rightarrow> ptr \<Rightarrow> string \<Rightarrow> machine \<Rightarrow> uint8_t \<times> machine" where
  "make_file fs dd filename m =
     (case fat_create_file dd filename indeterminate_entry m of
        (r, file_entry, m') \<Rightarrow> if r = 0 then (0, m') else (1, m'))"

text \<open>The message at the end of \<^verbatim>\<open>cmd_cd\<close>, main.c lines 546 to 548.\<close>

definition cd_not_found :: "string \<Rightarrow> machine \<Rightarrow> machine" where
  "cd_not_found command m =
     uart_putc (CHR 0x0A)
       (uart_puts command (uart_puts_p ''error directory not found: '' m))"

text \<open>\<^verbatim>\<open>cmd_cd\<close>, main.c lines 527 to 549. The function returns nothing; the model hands
  back the machine and, beside it, the value its own parameter \<^verbatim>\<open>dd\<close> holds when the
  function returns.\<close>

definition cmd_cd :: "ptr \<Rightarrow> ptr \<Rightarrow> string \<Rightarrow> machine \<Rightarrow> ptr \<times> machine" where
  "cmd_cd fs dd command m =
     (let command = drop 3 command
      in if c_str command = [] then (dd, m)
         else
           (case find_file_in_dir fs dd command indeterminate_entry m of
              (r, subdir_entry, m1) \<Rightarrow>
                if r \<noteq> 0 then
                  (case fat_open_dir fs subdir_entry m1 of
                     (dd_new, m2) \<Rightarrow>
                       if dd_new \<noteq> 0 then (dd_new, fat_close_dir dd m2)
                       else (dd, cd_not_found command m2))
                else (dd, cd_not_found command m1)))"

text \<open>The call of \<^verbatim>\<open>cmd_cd\<close> in \<^verbatim>\<open>exec_cmd\<close>, main.c lines 474 to 477 and 524:
  \<^verbatim>\<open>cmd_cd(fs, dd, command);\<close> passes the caller's \<^verbatim>\<open>dd\<close> by value, and \<^verbatim>\<open>exec_cmd\<close>
  returns 1. The model hands back the result, the caller's \<^verbatim>\<open>dd\<close> after the call, and
  the machine.\<close>

definition exec_cmd_cd :: "ptr \<Rightarrow> ptr \<Rightarrow> string \<Rightarrow> machine \<Rightarrow> uint8_t \<times> ptr \<times> machine" where
  "exec_cmd_cd fs dd command m =
     (case cmd_cd fs dd command m of
        (dd_in_cmd_cd, m') \<Rightarrow> (1, dd, m'))"

declare find_file_in_dir.simps [simp del]

text \<open>The slots of the directory behind a handle, its cursor, and the two states a search
  can leave: the state after the end of the directory has been reported (\<open>exhaust\<close>) and
  the state after \<^verbatim>\<open>fat_reset_dir\<close> (\<open>rewind\<close>).\<close>

definition dir_slots :: "ptr \<Rightarrow> machine \<Rightarrow> dir_slot list" where
  "dir_slots dd m =
     (case dir_handles m dd of None \<Rightarrow> []
      | Some h \<Rightarrow> dirs (volume m) (cluster (dd_entry h)))"

definition cursor_of :: "ptr \<Rightarrow> machine \<Rightarrow> nat" where
  "cursor_of dd m = (case dir_handles m dd of None \<Rightarrow> 0 | Some h \<Rightarrow> dd_cursor h)"

definition exhaust :: "ptr \<Rightarrow> machine \<Rightarrow> machine" where
  "exhaust dd m =
     (case dir_handles m dd of None \<Rightarrow> m
      | Some h \<Rightarrow> m\<lparr>dir_handles := (dir_handles m)
                 (dd \<mapsto> h\<lparr>dd_cursor := (if rewinds_at_end m then 0
                                       else max (dd_cursor h) (length (dir_slots dd m)))\<rparr>)\<rparr>)"

definition rewind :: "ptr \<Rightarrow> fat_dir_struct \<Rightarrow> machine \<Rightarrow> machine" where
  "rewind dd h m = m\<lparr>dir_handles := (dir_handles m) (dd \<mapsto> h\<lparr>dd_cursor := 0\<rparr>)\<rparr>"

subsection \<open>main.c: the write command\<close>

text \<open>What \<^verbatim>\<open>read_line\<close> does to the receive side: needed to see that the loop of
  \<^verbatim>\<open>cmd_write\<close> ends.\<close>

lemma machine_rx_same [simp]: "rx m = x \<Longrightarrow> m\<lparr>rx := x\<rparr> = m"
  by simp

lemma rx_poll_none: "rx m = [] \<Longrightarrow> rx_poll i m = (False, m)"
proof (induction i m rule: rx_poll.induct)
  case (1 i m)
  then show ?case
    by (subst rx_poll.simps) (simp add: RingBuffer_IsEmpty_def)
qed

lemma rx_poll_ready:
  "rx m = (d, c) # r \<Longrightarrow> i + d \<le> 1001 \<Longrightarrow> rx_poll i m = (True, m\<lparr>rx := (0, c) # r\<rparr>)"
proof (induction d arbitrary: i m)
  case 0
  then show ?case by (subst rx_poll.simps) (simp add: RingBuffer_IsEmpty_def)
next
  case (Suc d)
  have "rx_poll (Suc i) (m\<lparr>rx := (d, c) # r\<rparr>) = (True, m\<lparr>rx := (d, c) # r\<rparr>\<lparr>rx := (0, c) # r\<rparr>)"
    using Suc.prems by (intro Suc.IH) auto
  with Suc.prems show ?case
    by (subst rx_poll.simps) (simp add: RingBuffer_IsEmpty_def)
qed

lemma rx_poll_late:
  "rx m = (d, c) # r \<Longrightarrow> 1001 < i + d \<Longrightarrow> i \<le> 1001 \<Longrightarrow>
     rx_poll i m = (False, m\<lparr>rx := (i + d - 1002, c) # r\<rparr>)"
proof (induction i m arbitrary: d rule: rx_poll.induct)
  case (1 i m)
  show ?case
  proof (cases d)
    case 0
    with "1.prems" show ?thesis by simp
  next
    case (Suc d')
    show ?thesis
    proof (cases "i > 1000")
      case True
      with "1.prems" Suc show ?thesis
        by (subst rx_poll.simps) (simp add: RingBuffer_IsEmpty_def)
    next
      case False
      have e: "RingBuffer_IsEmpty m = (True, m\<lparr>rx := (d', c) # r\<rparr>)"
        using "1.prems" Suc by (simp add: RingBuffer_IsEmpty_def)
      have "rx_poll (Suc i) (m\<lparr>rx := (d', c) # r\<rparr>)
              = (False, m\<lparr>rx := (d', c) # r\<rparr>\<lparr>rx := (Suc i + d' - 1002, c) # r\<rparr>)"
        using "1.prems" Suc False
        by (intro "1.IH"[OF e[symmetric]]) auto
      with e False Suc show ?thesis
        by (subst rx_poll.simps) simp
    qed
  qed
qed

lemma rx_poll_length: "length (rx (snd (rx_poll i m))) = length (rx m)"
proof (induction i m rule: rx_poll.induct)
  case (1 i m)
  show ?case
  proof (cases "rx m")
    case Nil
    then show ?thesis by (simp add: rx_poll_none)
  next
    case (Cons p r)
    obtain d c where p: "p = (d, c)" by (cases p)
    show ?thesis
    proof (cases d)
      case 0
      with Cons p show ?thesis by (subst rx_poll.simps) (simp add: RingBuffer_IsEmpty_def)
    next
      case (Suc d')
      have e: "RingBuffer_IsEmpty m = (True, m\<lparr>rx := (d', c) # r\<rparr>)"
        using Cons p Suc by (simp add: RingBuffer_IsEmpty_def)
      show ?thesis
      proof (cases "i > 1000")
        case True
        with e Cons show ?thesis by (subst rx_poll.simps) simp
      next
        case False
        from "1.IH"[OF e[symmetric] TrueI False] e False Cons show ?thesis
          by (subst rx_poll.simps) simp
      qed
    qed
  qed
qed

lemma rx_poll_True_head:
  "rx_poll i m = (True, m') \<Longrightarrow> \<exists>c r. rx m' = (0, c) # r"
proof (induction i m rule: rx_poll.induct)
  case (1 i m)
  obtain e m1 where e: "RingBuffer_IsEmpty m = (e, m1)" by (cases "RingBuffer_IsEmpty m")
  show ?case
  proof (cases e)
    case True
    with "1.prems" e have "\<not> i > 1000" "rx_poll (Suc i) m1 = (True, m')"
      by (subst (asm) rx_poll.simps, simp split: if_splits)+
    with "1.IH"[OF e[symmetric]] True show ?thesis by simp
  next
    case False
    with "1.prems" e have "m' = m1" by (subst (asm) rx_poll.simps) simp
    with e False show ?thesis
      by (auto simp: RingBuffer_IsEmpty_def split: list.splits nat.splits)
  qed
qed

lemma read_line_loop_rx:
  "read_line_loop buffer n k m = (l, b', m') \<Longrightarrow>
     length (rx m') \<le> length (rx m) \<and> (l \<noteq> 0 \<longrightarrow> k \<noteq> 0 \<or> length (rx m') < length (rx m))"
proof (induction buffer n k m rule: read_line_loop.induct)
  case (1 buffer n k m)
  show ?case
  proof (cases "int k < int n - 1")
    case False
    with "1.prems" show ?thesis by (subst (asm) read_line_loop.simps) auto
  next
    case True
    obtain rdy m1 where p: "rx_poll 0 m = (rdy, m1)" by (cases "rx_poll 0 m")
    have len1: "length (rx m1) = length (rx m)" using rx_poll_length[of 0 m] p by simp
    show ?thesis
    proof (cases rdy)
      case False
      with "1.prems" True p len1 show ?thesis by (subst (asm) read_line_loop.simps) auto
    next
      case rdy: True
      from rx_poll_True_head[of 0 m m1] p rdy obtain c r where h: "rx m1 = (0, c) # r" by auto
      then have rem: "RingBuffer_Remove m1 = (c, m1\<lparr>rx := r\<rparr>)"
        by (simp add: RingBuffer_Remove_def)
      show ?thesis
      proof (cases "c = CHR 0x0A")
        case True
        with "1.prems" \<open>int k < int n - 1\<close> p rdy rem h len1 show ?thesis
          by (subst (asm) read_line_loop.simps) auto
      next
        case False
        with "1.prems" \<open>int k < int n - 1\<close> p rdy rem
        have rec: "read_line_loop (buffer[k := c]) n (Suc k) (m1\<lparr>rx := r\<rparr>) = (l, b', m')"
          by (subst (asm) read_line_loop.simps) auto
        have nn: "\<not> \<not> rdy" using rdy by simp
        from "1.IH"[OF \<open>int k < int n - 1\<close> p[symmetric] nn rem[symmetric] False rec]
        have "length (rx m') \<le> length r" by simp
        with h len1 show ?thesis by auto
      qed
    qed
  qed
qed

lemma read_line_rx:
  assumes "read_line buffer n m = (l, b', m')"
  shows "length (rx m') \<le> length (rx m)" and "l \<noteq> 0 \<Longrightarrow> length (rx m') < length (rx m)"
  using read_line_loop_rx[OF assms[unfolded read_line_def]] by auto


lemma fat_write_file_rx: "fat_write_file fd buf m = (r, m') \<Longrightarrow> rx m' = rx m"
  by (auto simp: fat_write_file_def split: option.splits prod.splits)

lemma uart_rx [simp]: "rx (uart_putc c m) = rx m" "rx (uart_puts s m) = rx m"
  "rx (uart_puts_p s m) = rx m"
  by (simp_all add: uart_putc_def uart_puts_def uart_puts_p_def)

text \<open>The loop of \<^verbatim>\<open>cmd_write\<close>, main.c lines 686 to 704: prompt, read one line into the
  global buffer (\<^verbatim>\<open>sizeof(buffer)\<close> is 20), stop on a result of 0, write the line, stop
  with a message when the count returned differs from the length. The cast
  \<^verbatim>\<open>(uint8_t*) buffer\<close> is \<open>map of_char\<close>.\<close>

function cmd_write_loop :: "ptr \<Rightarrow> machine \<Rightarrow> machine" where
  "cmd_write_loop fd m =
     (case read_line (global_buffer m) 20 (uart_putc (CHR '' '') (uart_putc (CHR ''<'') m)) of
        (data_len, buffer, m1) \<Rightarrow>
          if data_len = 0 then m1\<lparr>global_buffer := buffer\<rparr>
          else
            (case fat_write_file fd (map of_char (take data_len buffer))
                    (m1\<lparr>global_buffer := buffer\<rparr>) of
               (r, m2) \<Rightarrow>
                 if r \<noteq> Inr data_len then uart_puts_p ''error writing to file\<newline>'' m2
                 else cmd_write_loop fd m2))"
  by pat_completeness auto
termination
  apply (relation "measure (\<lambda>(fd, m). length (rx m))")
   apply simp
  apply (auto dest!: sym[of "(_,_,_)" "read_line _ _ _"] sym[of "(_,_)" "fat_write_file _ _ _"] read_line_rx(2) fat_write_file_rx)
  done


declare cmd_write_loop.simps [simp del]

text \<open>\<^verbatim>\<open>cmd_write\<close>, main.c lines 649 to 706. The command text is taken apart into the
  file name and the offset text at its first space. The C function does this in place;
  the model takes \<^verbatim>\<open>command\<close> to lie outside the global buffer that \<^verbatim>\<open>read_line\<close> fills.
  \<^verbatim>\<open>int32_t offset = strtolong(...)\<close> reads the \<^verbatim>\<open>uint32_t\<close> as a signed value.\<close>

definition cmd_write :: "ptr \<Rightarrow> ptr \<Rightarrow> string \<Rightarrow> machine \<Rightarrow> machine" where
  "cmd_write fs dd command m =
     (let command = c_str (drop 6 command)
      in if command = [] then m
         else
           (let name = takeWhile (\<lambda>c. c \<noteq> CHR '' '') command;
                rest = dropWhile (\<lambda>c. c \<noteq> CHR '' '') command
            in if rest = [] then m
               else
                 (let offset_value = tl rest
                  in case open_file_in_dir fs dd name m of
                       (fd, m1) \<Rightarrow>
                         if fd = 0 then
                           uart_putc (CHR 0x0A)
                             (uart_puts name (uart_puts_p ''error opening '' m1))
                         else
                           (let offset = sint (strtolong offset_value)
                            in case fat_seek_file fd offset m1 of
                                 (ok, m2) \<Rightarrow>
                                   if ok = 0 then
                                     fat_close_file fd
                                       (uart_putc (CHR 0x0A)
                                          (uart_puts name
                                             (uart_puts_p ''error seeking on '' m2)))
                                   else fat_close_file fd (cmd_write_loop fd m2)))))"

subsection \<open>main.c: creating a file, writing it and reading it back\<close>


section \<open>Partition table and mount, modelled from the specification\<close>

text \<open>Modelled from the spec: the block device as \<^verbatim>\<open>partition_open\<close> of partition.c sees
  it (partition.c and sd_raw.c are not among the sources): the bytes of sector 0 and the
  size of the device in sectors (spec 2, 6).\<close>

record block_device =
  sector0 :: "nat \<Rightarrow> uint8_t"
  device_size :: nat

text \<open>Modelled from the spec: \<^verbatim>\<open>struct partition_struct\<close>, the specification's
  PartitionEntry (spec 3): start sector, sector count, type code.\<close>

record partition_struct =
  start_sector :: nat
  sector_count :: nat
  type_code :: uint8_t

text \<open>Modelled from the spec: the entry a partition selector asks for (spec 4.2): a table
  index, or the first entry of a FAT type ("first-match").\<close>

datatype slot_choice = Slot nat | FirstMatch

text \<open>Modelled from the spec: the partition selector of spec 4.2, the last argument of
  \<^verbatim>\<open>partition_open\<close>: the entry asked for and whether the fallback to the whole device
  is requested ("auto").\<close>

record partition_selector =
  wanted :: slot_choice
  auto :: bool

text \<open>Modelled from the spec: the boot signature that \<^verbatim>\<open>partition_open\<close> of partition.c
  checks (spec 4.2, 6): 0x55 0xAA in the final two bytes of sector 0.\<close>

definition has_boot_signature :: "block_device \<Rightarrow> bool" where
  "has_boot_signature dev \<longleftrightarrow> sector0 dev 510 = 0x55 \<and> sector0 dev 511 = 0xAA"

text \<open>Modelled from the spec: a little-endian 32-bit field of a sector (spec 6).\<close>

definition read32 :: "(nat \<Rightarrow> uint8_t) \<Rightarrow> nat \<Rightarrow> nat" where
  "read32 s i = unat (s i) + 256 * unat (s (i + 1)) + 65536 * unat (s (i + 2))
                  + 16777216 * unat (s (i + 3))"

text \<open>Modelled from the spec: the layout of the partition table (spec 4.2, 6): four
  16-byte descriptors from byte 446 on, each with its type code at byte 4, its start
  sector at bytes 8 to 11 and its sector count at bytes 12 to 15.\<close>

definition table_entry :: "block_device \<Rightarrow> nat \<Rightarrow> partition_struct" where
  "table_entry dev i =
     \<lparr>start_sector = read32 (sector0 dev) (446 + 16 * i + 8),
      sector_count = read32 (sector0 dev) (446 + 16 * i + 12),
      type_code = sector0 dev (446 + 16 * i + 4)\<rparr>"

text \<open>Modelled from the spec: an empty partition slot (spec 4.2) is a descriptor with type
  code 0.\<close>

definition slot_empty :: "partition_struct \<Rightarrow> bool" where
  "slot_empty p \<longleftrightarrow> type_code p = 0"

text \<open>Modelled from the spec: the type codes recognised as FAT (spec 4.2).\<close>

definition is_fat_type :: "uint8_t \<Rightarrow> bool" where
  "is_fat_type t \<longleftrightarrow> t \<in> set [0x01, 0x04, 0x06, 0x0B, 0x0C, 0x0E]"

text \<open>Modelled from the spec: the choice of the entry (spec 4.2): the entry at the requested
  index, or the first non-empty entry recognised as a FAT type.\<close>

definition select_entry :: "block_device \<Rightarrow> slot_choice \<Rightarrow> partition_struct option" where
  "select_entry dev w =
     (case w of
        Slot i \<Rightarrow>
          if i < 4 \<and> \<not> slot_empty (table_entry dev i) then Some (table_entry dev i) else None
      | FirstMatch \<Rightarrow>
          find (\<lambda>p. \<not> slot_empty p \<and> is_fat_type (type_code p)) (map (table_entry dev) [0..<4]))"

text \<open>Modelled from the spec: the partition that stands for the entire device (spec 4.2,
  8): it starts at sector 0 and has the size of the device. Its type code is 0.\<close>

definition whole_device :: "block_device \<Rightarrow> partition_struct" where
  "whole_device dev = \<lparr>start_sector = 0, sector_count = device_size dev, type_code = 0\<rparr>"

text \<open>Modelled from the spec: \<^verbatim>\<open>partition_open\<close> of partition.c (spec 4.2): if the
  signature is absent or the requested slot is empty, and the selector requests "auto",
  the entire device is one partition starting at sector 0; otherwise the entry selected,
  or NotFound (here \<open>None\<close>).\<close>

definition partition_open :: "block_device \<Rightarrow> partition_selector \<Rightarrow> partition_struct option" where
  "partition_open dev sel =
     (case (if has_boot_signature dev then select_entry dev (wanted sel) else None) of
        Some p \<Rightarrow> Some p
      | None \<Rightarrow> if auto sel then Some (whole_device dev) else None)"

text \<open>The opening of the partition in \<^verbatim>\<open>main\<close>, main.c lines 284 to 304: first
  \<^verbatim>\<open>partition_open(..., 0)\<close>, the first table entry; if that gives null,
  \<^verbatim>\<open>partition_open(..., -1)\<close>, which the comment in main.c explains as taking the device
  for a superfloppy, the specification's "auto". The four device callbacks of the C call
  are the block device here.\<close>

definition main_open_partition :: "block_device \<Rightarrow> partition_struct option" where
  "main_open_partition dev =
     (case partition_open dev \<lparr>wanted = Slot 0, auto = False\<rparr> of
        Some p \<Rightarrow> Some p
      | None \<Rightarrow> partition_open dev \<lparr>wanted = Slot 0, auto = True\<rparr>)"

text \<open>Modelled from the spec: the fields of the boot parameter block that mount (\<^verbatim>\<open>fat_open\<close>
  of fat.c, not among the sources) reads (spec 4.3, 6).\<close>

record boot_parameter_block =
  bytes_per_sector :: nat
  sectors_per_cluster :: nat
  reserved_sector_count :: nat
  fat_count :: nat
  sectors_per_fat :: nat
  root_entry_count :: nat
  total_sectors :: nat

text \<open>Modelled from the spec: the descriptor that mount yields (spec 3,
  FilesystemDescriptor): the geometry, the total cluster count and the FAT width.\<close>

record filesystem_descriptor =
  geometry :: boot_parameter_block
  total_cluster_count :: nat
  fat_width :: nat

text \<open>Modelled from the spec: FAT width selection (spec 4.3): below 4,085 clusters 12-bit,
  below 65,525 clusters 16-bit, otherwise 32-bit.\<close>

definition fat_width_of :: "nat \<Rightarrow> nat" where
  "fat_width_of n = (if n < 4085 then 12 else if n < 65525 then 16 else 32)"

text \<open>Modelled from the spec: the total cluster count that mount computes from the
  geometry (spec 4.3): the sectors behind the reserved sectors, the FAT copies and the
  fixed root-directory region, divided by the sectors per cluster.\<close>

definition count_clusters :: "boot_parameter_block \<Rightarrow> nat" where
  "count_clusters b =
     (let root_sectors = (root_entry_count b * 32 + bytes_per_sector b - 1) div bytes_per_sector b;
          first_data_sector = reserved_sector_count b + fat_count b * sectors_per_fat b
                                + root_sectors
      in (total_sectors b - first_data_sector) div sectors_per_cluster b)"

text \<open>Modelled from the spec: mount (spec 4.3) on the fields read from the first sector of
  the partition; the sector size must be a supported power of two. The partition, with its
  stored type code, is an argument as in \<^verbatim>\<open>fat_open(partition)\<close>.\<close>

definition mount :: "partition_struct \<Rightarrow> boot_parameter_block \<Rightarrow> fat_error + filesystem_descriptor" where
  "mount p b =
     (if bytes_per_sector b \<notin> set [512, 1024, 2048, 4096] \<or> sectors_per_cluster b = 0
         \<or> fat_count b = 0
      then Inl InvalidFormat
      else Inr \<lparr>geometry = b, total_cluster_count = count_clusters b,
                fat_width = fat_width_of (count_clusters b)\<rparr>)"

subsection \<open>A small machine for concrete runs\<close>

text \<open>A volume of three clusters of four bytes. Its root directory has one deleted slot,
  one file and one subdirectory, which occupies cluster 2 and is empty. One directory
  handle, at address 7, is open on the root directory.\<close>

definition ex_root :: fat_dir_entry_struct where
  "ex_root = \<lparr>long_name = ''/'', attributes = 0x10, cluster = 0, file_size = 0,
               entry_dir = 0, entry_slot = 0\<rparr>"

definition ex_file :: fat_dir_entry_struct where
  "ex_file = \<lparr>long_name = ''DUMP0'', attributes = 0, cluster = 0, file_size = 0,
               entry_dir = 0, entry_slot = 0\<rparr>"

definition ex_subdir :: fat_dir_entry_struct where
  "ex_subdir = \<lparr>long_name = ''SUB'', attributes = 0x10, cluster = 2, file_size = 0,
                 entry_dir = 0, entry_slot = 0\<rparr>"

definition ex_volume :: fat_fs_struct where
  "ex_volume = \<lparr>cluster_size = 4, cluster_count = 3,
                 fat = (\<lambda>c. if c = 2 then EndOfChain else Free),
                 cluster_data = (\<lambda>c off. 0), alloc_hint = 2, free_count = 2,
                 root_slots = 16,
                 dirs = (\<lambda>d. if d = 0 then [Deleted, Entry ex_file, Entry ex_subdir]
                             else [])\<rparr>"

definition ex_machine :: machine where
  "ex_machine = \<lparr>volume = ex_volume,
                  dir_handles = [7 \<mapsto> \<lparr>dd_entry = ex_root, dd_cursor = 0\<rparr>],
                  file_handles = Map.empty, next_handle = 7, uart_out = [],
                  global_buffer = replicate 20 NUL, rx = [], rewinds_at_end = False\<rparr>"

text \<open>The same machine, for either behaviour of the library at the end of a directory,
  after one call of \<^verbatim>\<open>fat_read_dir\<close> on the handle: the call has returned the file, and
  the cursor stands behind it, at slot 2.\<close>

definition ex_listing :: "bool \<Rightarrow> machine" where
  "ex_listing b = snd (snd (fat_read_dir 7 indeterminate_entry (ex_machine\<lparr>rewinds_at_end := b\<rparr>)))"

text \<open>The first machine after \<^verbatim>\<open>open_file_in_dir\<close> has opened the file: a file handle at
  address 8.\<close>

definition ex_open :: machine where
  "ex_open = snd (open_file_in_dir 0 7 ''DUMP0'' ex_machine)"

text \<open>That machine after six bytes have been written to the file and the position has
  been set back to the start.\<close>

definition ex_written :: machine where
  "ex_written = snd (fat_seek_file 8 0 (snd (fat_write_file 8 [1, 2, 3, 4, 5, 6] ex_open)))"



text \<open>Equality up to letter case, as the specification words the comparison of names:
  \<^verbatim>\<open>tolower\<close> of the C library on ASCII letters, applied to both strings.\<close>

definition tolower :: "char \<Rightarrow> char" where
  "tolower c = (if 65 \<le> (of_char c :: nat) \<and> (of_char c :: nat) \<le> 90 then char_of (of_char c + (32::nat)) else c)"

definition equal_ignoring_case :: "string \<Rightarrow> string \<Rightarrow> bool" where
  "equal_ignoring_case a b \<longleftrightarrow> map tolower (c_str a) = map tolower (c_str b)"


text \<open>A device without a partition table, a device with one FAT16 partition of 65,536
  sectors starting at sector 2,048, and a geometry with a given number of clusters.\<close>

definition ex_blank_device :: block_device where
  "ex_blank_device = \<lparr>sector0 = (\<lambda>i. 0), device_size = 4096\<rparr>"

definition ex_mbr_device :: block_device where
  "ex_mbr_device =
     \<lparr>sector0 = (\<lambda>i. if i = 510 then 0x55 else if i = 511 then 0xAA
                       else if i = 450 then 0x06 else if i = 455 then 0x08
                       else if i = 460 then 0x01 else 0),
      device_size = 131072\<rparr>"

definition ex_bpb :: "nat \<Rightarrow> boot_parameter_block" where
  "ex_bpb n = \<lparr>bytes_per_sector = 512, sectors_per_cluster = 4, reserved_sector_count = 2,
               fat_count = 1, sectors_per_fat = 4, root_entry_count = 16,
               total_sectors = 7 + 4 * n\<rparr>"

section \<open>Lemmas about the name lookup\<close>

lemma of_char_eq_0: "of_char c = (0::nat) \<longleftrightarrow> c = NUL"
  using of_char_eq_iff[of c "CHR 0x00", where ?'a = nat] by (simp add: NUL_def)

lemma strcmp_eq_0: "strcmp a b = 0 \<longleftrightarrow> c_str a = c_str b"
  by (induction a b rule: strcmp.induct) (auto simp: c_str_def of_char_eq_0)

lemma scan_slots_None: "scan_slots ss i = None \<longleftrightarrow> (\<forall>e. Entry e \<notin> set ss)"
  by (induction ss i rule: scan_slots.induct) auto

lemma scan_slots_split:
  "scan_slots ss i = Some (j, e) \<Longrightarrow>
     \<exists>k. j = i + k \<and> k < length ss \<and> ss ! k = Entry e \<and> (\<forall>l<k. ss ! l = Deleted)"
proof (induction ss i rule: scan_slots.induct)
  case (2 ss i)
  then obtain k where k: "j = Suc i + k" "k < length ss" "ss ! k = Entry e" "\<forall>l<k. ss ! l = Deleted"
    by auto
  show ?case
    apply (rule exI[of _ "Suc k"])
    using k by (auto simp: nth_Cons')
qed auto


text \<open>What one successful read tells: the entry sits at a slot at or after the cursor,
  only deleted slots lie between, and the cursor moves just behind it.\<close>

lemma fat_read_dir_hit:
  assumes "fat_read_dir dd e m = (r, e', m')" "r \<noteq> 0"
  shows "\<exists>h i e0. dir_handles m dd = Some h \<and> dd_cursor h \<le> i \<and> i < length (dir_slots dd m)
            \<and> dir_slots dd m ! i = Entry e0
            \<and> (\<forall>l. dd_cursor h \<le> l \<and> l < i \<longrightarrow> dir_slots dd m ! l = Deleted)
            \<and> e' = e0\<lparr>entry_dir := cluster (dd_entry h), entry_slot := i\<rparr>
            \<and> r = 1
            \<and> m' = m\<lparr>dir_handles := (dir_handles m) (dd \<mapsto> h\<lparr>dd_cursor := Suc i\<rparr>)\<rparr>"
proof -
  from assms obtain h where h: "dir_handles m dd = Some h"
    by (auto simp: fat_read_dir_def split: option.splits)
  let ?slots = "dirs (volume m) (cluster (dd_entry h))"
  from assms h obtain j e0 where
    sc: "scan_slots (drop (dd_cursor h) ?slots) (dd_cursor h) = Some (j, e0)"
    and r: "r = 1" "e' = e0\<lparr>entry_dir := cluster (dd_entry h), entry_slot := j\<rparr>"
      "m' = m\<lparr>dir_handles := (dir_handles m) (dd \<mapsto> h\<lparr>dd_cursor := Suc j\<rparr>)\<rparr>"
    by (auto simp: fat_read_dir_def Let_def split: option.splits)
  from scan_slots_split[OF sc] obtain k where
    k: "j = dd_cursor h + k" "k < length (drop (dd_cursor h) ?slots)"
       "drop (dd_cursor h) ?slots ! k = Entry e0"
       "\<forall>l<k. drop (dd_cursor h) ?slots ! l = Deleted"
    by blast
  have "\<forall>l. dd_cursor h \<le> l \<and> l < j \<longrightarrow> ?slots ! l = Deleted"
  proof (intro allI impI)
    fix l assume l: "dd_cursor h \<le> l \<and> l < j"
    then have "l - dd_cursor h < k" using k(1) by arith
    with k(4) have "drop (dd_cursor h) ?slots ! (l - dd_cursor h) = Deleted" by blast
    with l k(2) show "?slots ! l = Deleted" by simp
  qed
  with h k r show ?thesis
    by (auto simp: dir_slots_def intro!: exI[of _ j])
qed


lemma fat_read_dir_end:
  assumes "fat_read_dir dd e m = (r, e', m')" "r = 0"
  shows "e' = e" and "m' = exhaust dd m"
    and "\<forall>l e0. cursor_of dd m \<le> l \<and> l < length (dir_slots dd m)
                     \<longrightarrow> dir_slots dd m ! l \<noteq> Entry e0"
proof -
  show "e' = e" using assms
    by (auto simp: fat_read_dir_def Let_def split: option.splits)
  show "m' = exhaust dd m" using assms
    by (auto simp: fat_read_dir_def Let_def exhaust_def dir_slots_def split: option.splits)
  show "\<forall>l e0. cursor_of dd m \<le> l \<and> l < length (dir_slots dd m)
                     \<longrightarrow> dir_slots dd m ! l \<noteq> Entry e0"
  proof (cases "dir_handles m dd")
    case None
    then show ?thesis by (simp add: dir_slots_def)
  next
    case (Some h)
    let ?slots = "dirs (volume m) (cluster (dd_entry h))"
    from assms Some have sc: "scan_slots (drop (dd_cursor h) ?slots) (dd_cursor h) = None"
      by (auto simp: fat_read_dir_def Let_def split: option.splits)
    then have no: "\<forall>e0. Entry e0 \<notin> set (drop (dd_cursor h) ?slots)"
      by (simp add: scan_slots_None)
    have "?slots ! l \<noteq> Entry e0" if "dd_cursor h \<le> l" "l < length ?slots" for l e0
    proof -
      have "drop (dd_cursor h) ?slots ! (l - dd_cursor h) = ?slots ! l"
        using that by simp
      moreover have "l - dd_cursor h < length (drop (dd_cursor h) ?slots)"
        using that by simp
      ultimately have "?slots ! l \<in> set (drop (dd_cursor h) ?slots)"
        by (metis nth_mem)
      with no show ?thesis by metis
    qed
    with Some show ?thesis by (simp add: dir_slots_def cursor_of_def)
  qed
qed

lemma exhaust_advance:
  assumes "dir_handles m dd = Some h" "dd_cursor h \<le> i" "i < length (dir_slots dd m)"
  shows "exhaust dd (m\<lparr>dir_handles := (dir_handles m) (dd \<mapsto> h\<lparr>dd_cursor := Suc i\<rparr>)\<rparr>) = exhaust dd m"
  using assms by (simp add: exhaust_def dir_slots_def max_def)

lemma find_file_in_dir_miss:
  assumes "\<forall>l e. cursor_of dd m \<le> l \<and> l < length (dir_slots dd m) \<and> dir_slots dd m ! l = Entry e
              \<longrightarrow> strcmp (long_name e) name \<noteq> 0"
  shows "\<exists>e'. find_file_in_dir fs dd name de m = (0, e', exhaust dd m)"
  using assms
proof (induction fs dd name de m rule: find_file_in_dir.induct)
  case (1 fs dd name dir_entry m)
  obtain r e1 m1 where rd: "fat_read_dir dd dir_entry m = (r, e1, m1)"
    by (cases "fat_read_dir dd dir_entry m") auto
  show ?case
  proof (cases "r = 0")
    case True
    from fat_read_dir_end(2)[OF rd True] rd True show ?thesis
      by (subst find_file_in_dir.simps) simp
  next
    case False
    from fat_read_dir_hit[OF rd False] obtain h i e0 where
      h: "dir_handles m dd = Some h" "dd_cursor h \<le> i" "i < length (dir_slots dd m)"
         "dir_slots dd m ! i = Entry e0"
         "e1 = e0\<lparr>entry_dir := cluster (dd_entry h), entry_slot := i\<rparr>"
         "m1 = m\<lparr>dir_handles := (dir_handles m) (dd \<mapsto> h\<lparr>dd_cursor := Suc i\<rparr>)\<rparr>"
      by blast
    from h(1-4) "1.prems" have "strcmp (long_name e0) name \<noteq> 0"
      by (simp add: cursor_of_def)
    with h(5) have ne: "strcmp (long_name e1) name \<noteq> 0" by simp
    have slots1: "dir_slots dd m1 = dir_slots dd m"
      using h(1,6) by (simp add: dir_slots_def)
    have cur1: "cursor_of dd m1 = Suc i" unfolding h(6) by (simp add: cursor_of_def)
    have ex1: "exhaust dd m1 = exhaust dd m"
      unfolding h(6) by (rule exhaust_advance[OF h(1,2,3)])
    have "\<forall>l e. cursor_of dd m1 \<le> l \<and> l < length (dir_slots dd m1) \<and> dir_slots dd m1 ! l = Entry e
              \<longrightarrow> strcmp (long_name e) name \<noteq> 0"
    proof (intro allI impI)
      fix l e
      assume "cursor_of dd m1 \<le> l \<and> l < length (dir_slots dd m1) \<and> dir_slots dd m1 ! l = Entry e"
      then have "cursor_of dd m \<le> l \<and> l < length (dir_slots dd m) \<and> dir_slots dd m ! l = Entry e"
        using h(1,2) cur1 slots1 by (simp add: cursor_of_def)
      with "1.prems" show "strcmp (long_name e) name \<noteq> 0" by blast
    qed
    from "1.IH"[OF rd[symmetric] refl False ne this] ex1
    obtain e' where rec: "find_file_in_dir fs dd name e1 m1 = (0, e', exhaust dd m)"
      by auto
    have "find_file_in_dir fs dd name dir_entry m = find_file_in_dir fs dd name e1 m1"
      using rd False ne by (subst find_file_in_dir.simps) simp
    with rec show ?thesis by simp
  qed
qed

lemma rewind_advance:
  "rewind dd (h\<lparr>dd_cursor := c\<rparr>) (m\<lparr>dir_handles := (dir_handles m) (dd \<mapsto> h\<lparr>dd_cursor := c\<rparr>)\<rparr>)
     = rewind dd h m"
  by (simp add: rewind_def)

lemma find_file_in_dir_first:
  assumes "dir_handles m dd = Some h" "dd_cursor h \<le> i" "i < length (dir_slots dd m)"
    and "dir_slots dd m ! i = Entry e0" "strcmp (long_name e0) name = 0"
    and "\<forall>l e. dd_cursor h \<le> l \<and> l < i \<and> dir_slots dd m ! l = Entry e
                 \<longrightarrow> strcmp (long_name e) name \<noteq> 0"
  shows "find_file_in_dir fs dd name de m
           = (1, e0\<lparr>entry_dir := cluster (dd_entry h), entry_slot := i\<rparr>, rewind dd h m)"
  using assms
proof (induction fs dd name de m arbitrary: h rule: find_file_in_dir.induct)
  case (1 fs dd name dir_entry m)
  obtain r e1 m1 where rd: "fat_read_dir dd dir_entry m = (r, e1, m1)"
    by (cases "fat_read_dir dd dir_entry m") auto
  have r: "r \<noteq> 0"
  proof
    assume "r = 0"
    from fat_read_dir_end(3)[OF rd this] "1.prems"(1-4) show False
      by (auto simp: cursor_of_def)
  qed
  from fat_read_dir_hit[OF rd r] "1.prems"(1) obtain j ej where
    j: "dd_cursor h \<le> j" "j < length (dir_slots dd m)" "dir_slots dd m ! j = Entry ej"
       "\<forall>l. dd_cursor h \<le> l \<and> l < j \<longrightarrow> dir_slots dd m ! l = Deleted"
       "e1 = ej\<lparr>entry_dir := cluster (dd_entry h), entry_slot := j\<rparr>"
       "m1 = m\<lparr>dir_handles := (dir_handles m) (dd \<mapsto> h\<lparr>dd_cursor := Suc j\<rparr>)\<rparr>"
    by auto
  have ji: "j \<le> i"
  proof (rule ccontr)
    assume "\<not> j \<le> i"
    with j(4) "1.prems"(2) have "dir_slots dd m ! i = Deleted" by simp
    with "1.prems"(4) show False by simp
  qed
  show ?case
  proof (cases "j = i")
    case True
    with j "1.prems"(4,5) have "e1 = e0\<lparr>entry_dir := cluster (dd_entry h), entry_slot := i\<rparr>"
      "strcmp (long_name e1) name = 0" by auto
    moreover have "fat_reset_dir dd m1 = rewind dd h m"
      unfolding j(6) by (simp add: fat_reset_dir_def rewind_def)
    ultimately show ?thesis using rd r
      by (subst find_file_in_dir.simps) simp
  next
    case False
    with ji have lt: "j < i" by simp
    with "1.prems"(6) j(1,3,5) have ne: "strcmp (long_name e1) name \<noteq> 0" by auto
    let ?h1 = "h\<lparr>dd_cursor := Suc j\<rparr>"
    have h1: "dir_handles m1 dd = Some ?h1" unfolding j(6) by simp
    have slots1: "dir_slots dd m1 = dir_slots dd m"
      using "1.prems"(1) j(6) by (simp add: dir_slots_def)
    have "find_file_in_dir fs dd name e1 m1
            = (1, e0\<lparr>entry_dir := cluster (dd_entry ?h1), entry_slot := i\<rparr>, rewind dd ?h1 m1)"
    proof (rule "1.IH"[OF rd[symmetric] refl r ne h1])
      show "dd_cursor ?h1 \<le> i" using lt by simp
      show "i < length (dir_slots dd m1)" using "1.prems"(3) slots1 by simp
      show "dir_slots dd m1 ! i = Entry e0" using "1.prems"(4) slots1 by simp
      show "strcmp (long_name e0) name = 0" by fact
      show "\<forall>l e. dd_cursor ?h1 \<le> l \<and> l < i \<and> dir_slots dd m1 ! l = Entry e
                 \<longrightarrow> strcmp (long_name e) name \<noteq> 0"
      proof (intro allI impI)
        fix l e assume a: "dd_cursor ?h1 \<le> l \<and> l < i \<and> dir_slots dd m1 ! l = Entry e"
        then have "dd_cursor h \<le> l \<and> l < i \<and> dir_slots dd m ! l = Entry e"
          using j(1) slots1 by simp
        with "1.prems"(6) show "strcmp (long_name e) name \<noteq> 0" by blast
      qed
    qed
    moreover have "rewind dd ?h1 m1 = rewind dd h m"
      unfolding j(6) by (rule rewind_advance)
    moreover have "find_file_in_dir fs dd name dir_entry m = find_file_in_dir fs dd name e1 m1"
      using rd r ne by (subst find_file_in_dir.simps) simp
    ultimately show ?thesis by simp
  qed
qed

lemma find_file_in_dir_present:
  assumes "dir_handles m dd = Some h" "dd_cursor h \<le> i" "i < length (dir_slots dd m)"
    and "dir_slots dd m ! i = Entry e0" "strcmp (long_name e0) name = 0"
  shows "\<exists>e'. find_file_in_dir fs dd name de m = (1, e', rewind dd h m)
              \<and> strcmp (long_name e') name = 0"
proof -
  define P where "P k \<longleftrightarrow> dd_cursor h \<le> k \<and> k < length (dir_slots dd m)
       \<and> (\<exists>e. dir_slots dd m ! k = Entry e \<and> strcmp (long_name e) name = 0)" for k
  have "P i" using assms by (auto simp: P_def)
  define k where "k = (LEAST k. P k)"
  have Pk: "P k" unfolding k_def using \<open>P i\<close> by (rule LeastI)
  have least: "\<not> P l" if "l < k" for l using that not_less_Least k_def by blast
  from Pk obtain ek where ek: "dd_cursor h \<le> k" "k < length (dir_slots dd m)"
    "dir_slots dd m ! k = Entry ek" "strcmp (long_name ek) name = 0"
    by (auto simp: P_def)
  have "\<forall>l e. dd_cursor h \<le> l \<and> l < k \<and> dir_slots dd m ! l = Entry e
                 \<longrightarrow> strcmp (long_name e) name \<noteq> 0"
    using least ek(2) by (auto simp: P_def)
  from find_file_in_dir_first[OF assms(1) ek this] ek(4) show ?thesis by simp
qed


lemma find_file_in_dir_cases:
  assumes "dir_handles m dd = Some h"
  shows "(\<exists>e'. find_file_in_dir fs dd name de m = (0, e', exhaust dd m))
       \<or> (\<exists>e'. find_file_in_dir fs dd name de m = (1, e', rewind dd h m)
                 \<and> strcmp (long_name e') name = 0)"
proof (cases "\<exists>i e0. dd_cursor h \<le> i \<and> i < length (dir_slots dd m)
                 \<and> dir_slots dd m ! i = Entry e0 \<and> strcmp (long_name e0) name = 0")
  case True
  then obtain i e0 where "dd_cursor h \<le> i" "i < length (dir_slots dd m)"
     "dir_slots dd m ! i = Entry e0" "strcmp (long_name e0) name = 0" by blast
  from find_file_in_dir_present[OF assms this] show ?thesis by blast
next
  case False
  with assms have "\<forall>l e. cursor_of dd m \<le> l \<and> l < length (dir_slots dd m) \<and> dir_slots dd m ! l = Entry e
              \<longrightarrow> strcmp (long_name e) name \<noteq> 0"
    by (auto simp: cursor_of_def)
  from find_file_in_dir_miss[OF this] show ?thesis by blast
qed

lemma exhaust_read:
  assumes "dir_handles m dd = Some h" and "\<not> rewinds_at_end m"
  shows "fat_read_dir dd e (exhaust dd m) = (0, e, exhaust dd m)"
  using assms
  by (simp add: fat_read_dir_def exhaust_def dir_slots_def Let_def max_def)

lemma exhaust_frame:
  "volume (exhaust dd m) = volume m \<and> file_handles (exhaust dd m) = file_handles m
   \<and> next_handle (exhaust dd m) = next_handle m \<and> uart_out (exhaust dd m) = uart_out m"
  by (simp add: exhaust_def split: option.splits)

lemma exhaust_find:
  assumes "dir_handles m dd = Some h" and "\<not> rewinds_at_end m"
  shows "find_file_in_dir fs dd name e (exhaust dd m) = (0, e, exhaust dd m)"
  by (subst find_file_in_dir.simps) (simp add: exhaust_read[OF assms])

lemma exhaust_cursor:
  assumes "dir_handles m dd = Some h" and "\<not> rewinds_at_end m"
  shows "cursor_of dd (exhaust dd m) = max (dd_cursor h) (length (dir_slots dd m))"
  using assms by (simp add: exhaust_def cursor_of_def)

lemma exhaust_rewinds:
  assumes "dir_handles m dd = Some h" and "rewinds_at_end m"
  shows "exhaust dd m = rewind dd h m"
  using assms by (simp add: exhaust_def rewind_def)

lemma ex_slots: "dir_slots 7 ex_machine = [Deleted, Entry ex_file, Entry ex_subdir]"
  by (simp add: dir_slots_def ex_machine_def ex_volume_def ex_root_def)

lemma find_file_in_dir_result:
  "(\<exists>e'. find_file_in_dir fs dd name de m = (0, e', exhaust dd m))
   \<or> (\<exists>h e'. dir_handles m dd = Some h
          \<and> find_file_in_dir fs dd name de m = (1, e', rewind dd h m)
          \<and> strcmp (long_name e') name = 0)"
proof (cases "dir_handles m dd")
  case None
  then have "\<forall>l e. cursor_of dd m \<le> l \<and> l < length (dir_slots dd m) \<and> dir_slots dd m ! l = Entry e
              \<longrightarrow> strcmp (long_name e) name \<noteq> 0"
    by (simp add: dir_slots_def)
  from find_file_in_dir_miss[OF this] show ?thesis by blast
next
  case (Some h)
  from find_file_in_dir_cases[OF Some] Some show ?thesis by blast
qed

lemma uart_frame [simp]:
  "dir_handles (uart_putc c m) = dir_handles m" "dir_handles (uart_puts s m) = dir_handles m"
  "dir_handles (uart_puts_p s m) = dir_handles m"
  "next_handle (uart_putc c m) = next_handle m" "next_handle (uart_puts s m) = next_handle m"
  "next_handle (uart_puts_p s m) = next_handle m"
  by (simp_all add: uart_putc_def uart_puts_def uart_puts_p_def)

subsection \<open>The cursor after a search\<close>

text \<open>\<^verbatim>\<open>find_file_in_dir\<close> calls \<^verbatim>\<open>fat_reset_dir\<close> in its match branch only: a search
  that returns non-zero found an entry of that name and leaves the cursor at 0. After a
  search that returns 0 the cursor is where \<^verbatim>\<open>fat_read_dir\<close> left it when it reported
  the end of the directory.\<close>

lemma hit_rewinds_cursor:
  assumes "dir_handles m dd = Some h"
    and "find_file_in_dir fs dd name de m = (r, e', m')" and "r \<noteq> 0"
  shows "strcmp (long_name e') name = 0" and "cursor_of dd m' = 0"
  using find_file_in_dir_cases[OF assms(1), of fs name de] assms(2,3)
  by (auto simp: rewind_def cursor_of_def)

text \<open>If the library leaves the cursor at the end, the handle is exhausted after a miss:
  the next read and the next search on it, for any name, return 0 at once.\<close>

lemma miss_without_rewind:
  assumes "dir_handles m dd = Some h" and "\<not> rewinds_at_end m"
    and "find_file_in_dir fs dd name de m = (0, e', m')"
  shows "cursor_of dd m' = max (dd_cursor h) (length (dir_slots dd m))"
    and "fat_read_dir dd e2 m' = (0, e2, m')"
    and "find_file_in_dir fs2 dd name2 e2 m' = (0, e2, m')"
proof -
  from find_file_in_dir_cases[OF assms(1), of fs name de] assms(3)
  have m': "m' = exhaust dd m" by auto
  show "cursor_of dd m' = max (dd_cursor h) (length (dir_slots dd m))"
    unfolding m' by (rule exhaust_cursor[OF assms(1,2)])
  show "fat_read_dir dd e2 m' = (0, e2, m')"
    unfolding m' by (rule exhaust_read[OF assms(1,2)])
  show "find_file_in_dir fs2 dd name2 e2 m' = (0, e2, m')"
    unfolding m' by (rule exhaust_find[OF assms(1,2)])
qed

text \<open>If the library rewinds by itself, a miss leaves the handle as a match does, at the
  start of the directory.\<close>

lemma miss_with_rewind:
  assumes "dir_handles m dd = Some h" and "rewinds_at_end m"
    and "find_file_in_dir fs dd name de m = (0, e', m')"
  shows "m' = rewind dd h m" and "cursor_of dd m' = 0"
proof -
  from find_file_in_dir_cases[OF assms(1), of fs name de] assms(3)
  have "m' = exhaust dd m" by auto
  then show "m' = rewind dd h m" by (simp add: exhaust_rewinds[OF assms(1,2)])
  then show "cursor_of dd m' = 0" by (simp add: rewind_def cursor_of_def)
qed

text \<open>On the example machine: after a search for a name that is absent, the search for the
  file that is there returns 0 in the first case and 1 in the second.\<close>

lemma search_after_miss_example:
  "fst (find_file_in_dir 0 7 ''DUMP0'' ex_file
          (snd (snd (find_file_in_dir 0 7 ''dump1'' ex_file ex_machine)))) = 0"
  "fst (find_file_in_dir 0 7 ''DUMP0'' ex_file
          (snd (snd (find_file_in_dir 0 7 ''dump1'' ex_file
                       (ex_machine\<lparr>rewinds_at_end := True\<rparr>))))) = 1"
  by (simp_all add: find_file_in_dir.simps fat_read_dir_def fat_reset_dir_def
      ex_machine_def ex_volume_def ex_root_def ex_file_def ex_subdir_def)

subsection \<open>Lemmas about reading a line\<close>

lemma memset_head: "0 < n \<Longrightarrow> (memset buffer n)[0 := NUL] = memset buffer n"
  by (cases "min n (length buffer)") (auto simp: memset_def)

lemma read_line_empty_line:
  assumes "rx m = (d, CHR 0x0A) # r" "d \<le> 1001"
  shows "read_line buffer n m = (0, memset buffer n, if 2 \<le> n then m\<lparr>rx := r\<rparr> else m)"
proof (cases "2 \<le> n")
  case True
  from rx_poll_ready[OF assms(1), of 0] assms(2)
  have "rx_poll 0 m = (True, m\<lparr>rx := (0, CHR 0x0A) # r\<rparr>)" by simp
  with True show ?thesis
    unfolding read_line_def
    by (subst read_line_loop.simps) (simp add: RingBuffer_Remove_def memset_head)
next
  case False
  then show ?thesis
    unfolding read_line_def by (subst read_line_loop.simps) simp
qed

lemma read_line_timeout:
  assumes "rx_poll 0 m = (False, m')"
  shows "read_line buffer n m = (0, memset buffer n, if 2 \<le> n then m' else m)"
  using assms unfolding read_line_def
  by (subst read_line_loop.simps) simp

lemma cmd_write_loop_stop:
  assumes "read_line (global_buffer m) 20 (uart_putc (CHR '' '') (uart_putc (CHR ''<'') m))
             = (0, b, m')"
  shows "cmd_write_loop fd m = m'\<lparr>global_buffer := b\<rparr>"
  using assms by (subst cmd_write_loop.simps) simp

subsection \<open>Lemmas about writing\<close>

lemma write_bytes_append:
  "write_bytes b1 n v f = (Inr (n + length b1), v1, f1) \<Longrightarrow>
     write_bytes (b1 @ b2) n v f = write_bytes b2 (n + length b1) v1 f1"
proof (induction b1 arbitrary: n v f)
  case Nil
  then show ?case by simp
next
  case (Cons b bs)
  show ?case
  proof (cases "write_cluster v f")
    case (Inl e)
    with Cons.prems show ?thesis by (simp split: if_splits)
  next
    case (Inr p)
    obtain v' f' where p: "p = (v', f')" by (cases p)
    from Cons.prems Inr p
    have "write_bytes bs (Suc n)
            (store_byte v' (fd_cluster f') (fd_pos f' mod cluster_size v') b)
            (f'\<lparr>fd_pos := Suc (fd_pos f')\<rparr>) = (Inr (Suc n + length bs), v1, f1)"
      by simp
    from Cons.IH[OF this] Inr p show ?thesis by simp
  qed
qed

lemma write_bytes_count:
  "write_bytes b n v f = (Inr k, v1, f1) \<Longrightarrow>
     n \<le> k \<and> k \<le> n + length b \<and> fd_pos f1 = fd_pos f + (k - n)"
proof (induction b arbitrary: n v f)
  case Nil
  then show ?case by simp
next
  case (Cons b bs)
  show ?case
  proof (cases "write_cluster v f")
    case (Inl e)
    with Cons.prems show ?thesis by (simp split: if_splits)
  next
    case (Inr p)
    obtain v' f' where p: "p = (v', f')" by (cases p)
    from Inr p have pos: "fd_pos f' = fd_pos f"
      by (auto simp: write_cluster_def split: if_splits option.splits fat_link.splits)
    from Cons.prems Inr p
    have "write_bytes bs (Suc n)
            (store_byte v' (fd_cluster f') (fd_pos f' mod cluster_size v') b)
            (f'\<lparr>fd_pos := Suc (fd_pos f')\<rparr>) = (Inr k, v1, f1)"
      by simp
    from Cons.IH[OF this] pos show ?thesis by auto
  qed
qed

lemma write_cluster_NoSpace:
  "write_cluster v f = Inl NoSpace \<longleftrightarrow> needs_cluster v f \<and> allocate_cluster v = None"
  by (auto simp: write_cluster_def needs_cluster_def split: option.splits fat_link.splits)

lemma needs_cluster_grow [simp]: "needs_cluster v (grow_size f) = needs_cluster v f"
  by (simp add: needs_cluster_def grow_size_def)


lemma cmd_write_loop_short:
  assumes "read_line (global_buffer m0) 20 (uart_putc (CHR '' '') (uart_putc (CHR ''<'') m0))
             = (data_len, buffer, mr)"
    and "data_len \<noteq> 0"
    and "fat_write_file fd (map of_char (take data_len buffer)) (mr\<lparr>global_buffer := buffer\<rparr>)
           = (Inr k, m1)"
    and "k \<noteq> data_len"
  shows "cmd_write_loop fd m0 = uart_puts_p ''error writing to file\<newline>'' m1"
  using assms by (subst cmd_write_loop.simps) simp

lemma ex_open_eq:
  "ex_open = ex_machine\<lparr>file_handles := [8 \<mapsto> \<lparr>fd_entry = ex_file\<lparr>entry_slot := 1\<rparr>, fd_pos = 0, fd_cluster = 0\<rparr>],
                         next_handle := 8\<rparr>"
  by (simp add: ex_open_def open_file_in_dir_def find_file_in_dir.simps fat_read_dir_def
      fat_reset_dir_def fat_open_file_def c_str_def NUL_def FAT_ATTRIB_DIR_def
      ex_machine_def ex_volume_def ex_root_def ex_file_def ex_subdir_def
      indeterminate_entry_def Let_def)


lemma upt_2_5: "[2..<5] = [2, 3, 4::nat]"
  by (simp add: upt_rec_numeral)

lemma ex_write8:
  "fat_write_file 8 [1, 2, 3, 4, 5, 6, 7, 8] ex_open
     = (Inr 8, snd (fat_write_file 8 [1, 2, 3, 4, 5, 6, 7, 8] ex_open))
   \<and> file_handles (snd (fat_write_file 8 [1, 2, 3, 4, 5, 6, 7, 8] ex_open)) 8
       = Some \<lparr>fd_entry = ex_file\<lparr>entry_slot := 1, cluster := 3, file_size := 8\<rparr>,
               fd_pos = 8, fd_cluster = 4\<rparr>
   \<and> allocate_cluster (volume (snd (fat_write_file 8 [1, 2, 3, 4, 5, 6, 7, 8] ex_open))) = None
   \<and> get_next_cluster (volume (snd (fat_write_file 8 [1, 2, 3, 4, 5, 6, 7, 8] ex_open))) 4
       = EndOfChain"
  by (simp add: ex_open_eq fat_write_file_def write_cluster_def allocate_cluster_def
      scan_order_def get_next_cluster_def set_next_cluster_def store_byte_def grow_size_def
      ex_machine_def ex_volume_def ex_file_def upt_2_5 Let_def)

subsection \<open>Lemmas about reading\<close>

lemma links_nth:
  "links v cl \<Longrightarrow> Suc j < length cl \<Longrightarrow> get_next_cluster v (cl ! j) = Next (cl ! Suc j)"
proof (induction v cl arbitrary: j rule: links.induct)
  case (3 v c d cl)
  then show ?case by (cases j) auto
qed auto

lemma links_nonzero: "links v cl \<Longrightarrow> j < length cl \<Longrightarrow> cl ! j \<noteq> 0"
proof (induction v cl arbitrary: j rule: links.induct)
  case (3 v c d cl)
  then show ?case by (cases j) auto
qed auto

lemma border_index:
  fixes p cs :: nat
  assumes "0 < cs" "0 < p" "p mod cs = 0"
  shows "Suc ((p - 1) div cs) = p div cs"
proof -
  from assms obtain k where k: "p = cs * k" by (auto simp: mod_eq_0_iff_dvd)
  with assms have "0 < k" by (cases k) auto
  then obtain k' where k': "k = Suc k'" by (cases k) auto
  have "(p - 1) div cs = k'"
  proof (rule div_nat_eqI)
    show "cs * k' \<le> p - 1" using k k' assms(1) by simp
    show "p - 1 < cs * Suc k'" using k k' assms(2) by simp
  qed
  with k k' assms(1) show ?thesis by simp
qed

lemma inner_index:
  fixes p cs :: nat
  assumes "0 < cs" "p mod cs \<noteq> 0"
  shows "(p - 1) div cs = p div cs"
proof (rule div_nat_eqI)
  have p: "cs * (p div cs) + p mod cs = p" by simp
  from assms have r: "0 < p mod cs" by simp
  show "cs * (p div cs) \<le> p - 1" using p r by arith
  have "p mod cs < cs" using assms(1) by simp
  moreover have "cs * Suc (p div cs) = cs * (p div cs) + cs" by simp
  ultimately show "p - 1 < cs * Suc (p div cs)" using p by arith
qed

lemma upt_step: "[p ..< p + Suc k] = p # [Suc p ..< Suc p + k]"
  by (simp add: upt_conv_Cons)

lemma read_bytes_length:
  "read_bytes n v f = (Inr data, g) \<Longrightarrow>
     length data = min n (file_size (fd_entry f) - fd_pos f)
     \<and> fd_pos g = fd_pos f + length data \<and> fd_entry g = fd_entry f"
proof (induction n arbitrary: f data g)
  case 0
  then show ?case by simp
next
  case (Suc n)
  show ?case
  proof (cases "file_size (fd_entry f) \<le> fd_pos f")
    case True
    with Suc.prems show ?thesis by simp
  next
    case False
    with Suc.prems obtain f' where rc: "read_cluster v f = Inr f'"
      by (cases "read_cluster v f") auto
    then have f': "fd_pos f' = fd_pos f" "fd_entry f' = fd_entry f"
      by (auto simp: read_cluster_def split: if_splits fat_link.splits)
    let ?f2 = "f'\<lparr>fd_pos := Suc (fd_pos f')\<rparr>"
    from Suc.prems False rc obtain bs where
      rec: "read_bytes n v ?f2 = (Inr bs, g)"
      and data: "data = cluster_data v (fd_cluster f') (fd_pos f' mod cluster_size v) # bs"
      by (auto split: prod.splits sum.splits)
    from Suc.IH[OF rec] f' False data show ?thesis by auto
  qed
qed

lemma read_bytes_chain:
  assumes "links v cl" "0 < cluster_size v"
    and "fd_pos f < file_size (fd_entry f) \<longrightarrow>
           fd_cluster f = cl ! ((fd_pos f - 1) div cluster_size v)
           \<and> (file_size (fd_entry f) - 1) div cluster_size v < length cl"
  shows "\<exists>g. read_bytes n v f
           = (Inr (map (file_byte v cl)
                     [fd_pos f ..< fd_pos f + min n (file_size (fd_entry f) - fd_pos f)]), g)"
  using assms(3)
proof (induction n arbitrary: f)
  case 0
  then show ?case by simp
next
  case (Suc n)
  let ?cs = "cluster_size v" and ?p = "fd_pos f" and ?s = "file_size (fd_entry f)"
  show ?case
  proof (cases "?s \<le> ?p")
    case True
    then show ?thesis by simp
  next
    case False
    then have ps: "?p < ?s" by simp
    with Suc.prems have cur: "fd_cluster f = cl ! ((?p - 1) div ?cs)"
      and len: "(?s - 1) div ?cs < length cl" by auto
    have idx: "?p div ?cs \<le> (?s - 1) div ?cs" using ps by (intro div_le_mono) simp
    have "\<exists>f'. read_cluster v f = Inr f' \<and> fd_cluster f' = cl ! (?p div ?cs)
             \<and> fd_pos f' = ?p \<and> fd_entry f' = fd_entry f"
    proof (cases "0 < ?p \<and> ?p mod ?cs = 0")
      case True
      then have b: "Suc ((?p - 1) div ?cs) = ?p div ?cs"
        using border_index[OF assms(2)] by simp
      with idx len have j: "Suc ((?p - 1) div ?cs) < length cl" by simp
      from links_nth[OF assms(1) j] cur b
      have nx: "get_next_cluster v (fd_cluster f) = Next (cl ! (?p div ?cs))" by simp
      from links_nonzero[OF assms(1), of "(?p - 1) div ?cs"] j cur
      have "fd_cluster f \<noteq> 0" by simp
      with True nx show ?thesis by (simp add: read_cluster_def)
    next
      case False
      have "(?p - 1) div ?cs = ?p div ?cs"
      proof (cases "?p = 0")
        case True
        then show ?thesis by simp
      next
        case False
        with \<open>\<not> (0 < ?p \<and> ?p mod ?cs = 0)\<close> have "?p mod ?cs \<noteq> 0" by simp
        from inner_index[OF assms(2) this] show ?thesis .
      qed
      with cur have c: "fd_cluster f = cl ! (?p div ?cs)" by simp
      from links_nonzero[OF assms(1), of "?p div ?cs"] idx len c
      have "fd_cluster f \<noteq> 0" by simp
      with False c show ?thesis by (auto simp: read_cluster_def)
    qed
    then obtain f' where rc: "read_cluster v f = Inr f'"
      and f': "fd_cluster f' = cl ! (?p div ?cs)" "fd_pos f' = ?p" "fd_entry f' = fd_entry f"
      by blast
    let ?f2 = "f'\<lparr>fd_pos := Suc (fd_pos f')\<rparr>"
    have "fd_pos ?f2 < file_size (fd_entry ?f2) \<longrightarrow>
           fd_cluster ?f2 = cl ! ((fd_pos ?f2 - 1) div ?cs)
           \<and> (file_size (fd_entry ?f2) - 1) div ?cs < length cl"
      using f' len by simp
    from Suc.IH[OF this] obtain g where
      rec: "read_bytes n v ?f2
           = (Inr (map (file_byte v cl)
                     [fd_pos ?f2 ..< fd_pos ?f2 + min n (file_size (fd_entry ?f2) - fd_pos ?f2)]), g)"
      by blast
    have m: "min (Suc n) (?s - ?p) = Suc (min n (?s - Suc ?p))" using ps by simp
    have "[?p ..< ?p + min (Suc n) (?s - ?p)] = ?p # [Suc ?p ..< Suc ?p + min n (?s - Suc ?p)]"
      unfolding m by (rule upt_step)
    moreover have "read_bytes (Suc n) v f
        = (Inr (file_byte v cl ?p # map (file_byte v cl)
                     [Suc ?p ..< Suc ?p + min n (?s - Suc ?p)]), g)"
      using rec rc f' ps by (simp add: file_byte_def)
    ultimately show ?thesis by simp
  qed
qed


lemma ex_written_eq:
  "file_handles ex_written 8
     = Some \<lparr>fd_entry = ex_file\<lparr>entry_slot := 1, cluster := 3, file_size := 6\<rparr>,
             fd_pos = 0, fd_cluster = 3\<rparr>
   \<and> cluster_size (volume ex_written) = 4
   \<and> links (volume ex_written) [3, 4]
   \<and> map (file_byte (volume ex_written) [3, 4]) [0, 1, 2, 3, 4, 5] = [1, 2, 3, 4, 5, 6]"
  by (simp add: ex_written_def ex_open_eq fat_write_file_def fat_seek_file_def write_cluster_def
      allocate_cluster_def scan_order_def get_next_cluster_def set_next_cluster_def
      store_byte_def grow_size_def file_byte_def
      ex_machine_def ex_volume_def ex_file_def upt_2_5 Let_def)

subsection \<open>Lemmas about allocation and about writing a fresh file\<close>






lemma free_clusters_store [simp]:
  "free_clusters (store_byte v c off b) = free_clusters v"
  by (simp add: free_clusters_def store_byte_def get_next_cluster_def)

lemma links_iff:
  "links v cl \<longleftrightarrow>
     (\<forall>j. Suc j < length cl \<longrightarrow> get_next_cluster v (cl ! j) = Next (cl ! Suc j)) \<and> 0 \<notin> set cl"
proof (induction v cl rule: links.induct)
  case (3 v c d cl)
  show ?case
  proof
    assume l: "links v (c # d # cl)"
    with 3 have ih: "\<forall>j. Suc j < length (d # cl) \<longrightarrow>
        get_next_cluster v ((d # cl) ! j) = Next ((d # cl) ! Suc j)" "0 \<notin> set (d # cl)"
      by auto
    have "get_next_cluster v ((c # d # cl) ! j) = Next ((c # d # cl) ! Suc j)"
      if "Suc j < length (c # d # cl)" for j
      using that l ih(1) by (cases j) auto
    with l ih(2) show "(\<forall>j. Suc j < length (c # d # cl) \<longrightarrow>
        get_next_cluster v ((c # d # cl) ! j) = Next ((c # d # cl) ! Suc j)) \<and> 0 \<notin> set (c # d # cl)"
      by auto
  next
    assume r: "(\<forall>j. Suc j < length (c # d # cl) \<longrightarrow>
        get_next_cluster v ((c # d # cl) ! j) = Next ((c # d # cl) ! Suc j)) \<and> 0 \<notin> set (c # d # cl)"
    then have "get_next_cluster v c = Next d" by (auto dest: spec[of _ 0])
    moreover have "\<forall>j. Suc j < length (d # cl) \<longrightarrow>
        get_next_cluster v ((d # cl) ! j) = Next ((d # cl) ! Suc j)"
      using r by (auto dest: spec[of _ "Suc _"])
    ultimately show "links v (c # d # cl)" using r 3 by auto
  qed
qed auto




lemma before_end:
  fixes i k L cs :: nat
  assumes "i < k" "k \<le> L * cs"
  shows "i div cs < L"
proof -
  from assms have "i < L * cs" by simp
  then show ?thesis by (simp add: less_mult_imp_div_less)
qed




lemma store_byte_frame [simp]:
  "get_next_cluster (store_byte v c off b) = get_next_cluster v"
  "cluster_size (store_byte v c off b) = cluster_size v"
  "dirs (store_byte v c off b) = dirs v"
  "cluster_count (store_byte v c off b) = cluster_count v"
  by (simp_all add: store_byte_def get_next_cluster_def fun_eq_iff)

lemma links_store [simp]: "links (store_byte v c off b) cl = links v cl"
  by (simp add: links_iff)








subsection \<open>Lemmas about creating, opening and closing\<close>









lemma c_str_idem [simp]: "c_str (c_str s) = c_str s"
  by (simp add: c_str_def takeWhile_idem)





text \<open>Creation succeeds, and takes no cluster, when the directory has a deleted slot or
  its region has a slot to spare.\<close>

lemma make_file_succeeds:
  assumes "dir_handles m dd = Some h"
    and "first_deleted (dir_slots dd m) 0 \<noteq> None
         \<or> length (dir_slots dd m) < region_slots (volume m) (cluster (dd_entry h))"
  shows "fst (make_file fs dd name m) = 1
       \<and> free_clusters (volume (snd (make_file fs dd name m))) = free_clusters (volume m)
       \<and> cluster_size (volume (snd (make_file fs dd name m))) = cluster_size (volume m)"
proof -
  let ?d = "cluster (dd_entry h)"
  have "\<exists>i. place_entry (volume m) ?d = Some (i, volume m)"
  proof (cases "first_deleted (dirs (volume m) ?d) 0")
    case None
    with assms show ?thesis by (simp add: place_entry_def dir_slots_def Let_def)
  next
    case (Some i)
    then show ?thesis by (simp add: place_entry_def Let_def)
  qed
  then obtain i where "place_entry (volume m) ?d = Some (i, volume m)" by blast
  with assms(1) show ?thesis
    by (simp add: make_file_def fat_create_file_def Let_def free_clusters_def
        get_next_cluster_def)
qed


text \<open>The example machine in the middle of a listing.\<close>

lemma ex_listing_eq:
  "ex_listing b = ex_machine\<lparr>dir_handles := [7 \<mapsto> \<lparr>dd_entry = ex_root, dd_cursor = 2\<rparr>],
                             rewinds_at_end := b\<rparr>"
  unfolding numeral_2_eq_2
  by (simp add: ex_listing_def fat_read_dir_def ex_machine_def ex_volume_def ex_root_def)

lemma ex_listing_slots: "dir_slots 7 (ex_listing b) = [Deleted, Entry ex_file, Entry ex_subdir]"
  by (simp add: ex_listing_eq dir_slots_def ex_machine_def ex_volume_def ex_root_def)

subsection \<open>The partition table of the example device\<close>

lemma mbr_partition_example:
  "partition_open ex_mbr_device \<lparr>wanted = Slot 0, auto = True\<rparr>
     = Some \<lparr>start_sector = 2048, sector_count = 65536, type_code = 6\<rparr>"
  by (simp add: partition_open_def has_boot_signature_def select_entry_def table_entry_def
      slot_empty_def read32_def ex_mbr_device_def)

section \<open>The claims\<close>

subsection \<open>Name lookup\<close>

text \<open>C7: a name-lookup miss is an empty result, not an error. When no live entry of the
  directory behind the handle compares equal to the name, \<^verbatim>\<open>find_file_in_dir\<close> returns 0
  and \<^verbatim>\<open>open_file_in_dir\<close> returns the null pointer; the only trace is the moved cursor
  of that handle: the volume and the file handles are as before, and nothing is sent to
  the UART.\<close>

theorem lookup_miss_returns_null:
  assumes "\<forall>e. Entry e \<in> set (dir_slots dd m) \<longrightarrow> strcmp (long_name e) name \<noteq> 0"
  shows "fst (find_file_in_dir fs dd name de m) = 0
       \<and> open_file_in_dir fs dd name m = (0, exhaust dd m)
       \<and> volume (exhaust dd m) = volume m
       \<and> file_handles (exhaust dd m) = file_handles m
       \<and> uart_out (exhaust dd m) = uart_out m"
proof -
  from assms have "\<forall>l e. cursor_of dd m \<le> l \<and> l < length (dir_slots dd m)
       \<and> dir_slots dd m ! l = Entry e \<longrightarrow> strcmp (long_name e) name \<noteq> 0"
    by (metis nth_mem)
  from find_file_in_dir_miss[OF this] obtain e' e'' where
    "find_file_in_dir fs dd name de m = (0, e', exhaust dd m)"
    "find_file_in_dir fs dd name indeterminate_entry m = (0, e'', exhaust dd m)" by blast
  then show ?thesis
    by (simp add: open_file_in_dir_def exhaust_frame)
qed

theorem lookup_miss_returns_null_witness:
  "fst (find_file_in_dir 0 7 ''dump1'' ex_file ex_machine) = 0
   \<and> open_file_in_dir 0 7 ''dump1'' ex_machine = (0, exhaust 7 ex_machine)"
proof -
  have h: "\<forall>e. Entry e \<in> set (dir_slots 7 ex_machine) \<longrightarrow> strcmp (long_name e) ''dump1'' \<noteq> 0"
    by (simp add: ex_slots ex_file_def ex_subdir_def)
  show ?thesis
    using lookup_miss_returns_null [OF h, of 0 ex_file] by simp
qed

text \<open>C1, as the specification states it: the lookup succeeds on an entry whenever the
  query equals the decoded name of the entry up to letter case. It does not: the query
  dump0 does not find the entry DUMP0; and the query DUMP0 does not find it either once
  the cursor of the handle stands behind the entry, whichever way the library treats the
  end of the directory.\<close>

theorem lookup_ignores_case_counterexample:
  "dir_handles ex_machine 7 = Some \<lparr>dd_entry = ex_root, dd_cursor = 0\<rparr>
   \<and> dir_slots 7 ex_machine ! 1 = Entry ex_file
   \<and> equal_ignoring_case ''dump0'' (long_name ex_file)
   \<and> fst (find_file_in_dir 0 7 ''dump0'' ex_file ex_machine) = 0
   \<and> dir_handles (ex_listing False) 7 = Some \<lparr>dd_entry = ex_root, dd_cursor = 2\<rparr>
   \<and> dir_slots 7 (ex_listing False) ! 1 = Entry ex_file
   \<and> equal_ignoring_case ''DUMP0'' (long_name ex_file)
   \<and> fst (find_file_in_dir 0 7 ''DUMP0'' ex_file (ex_listing False)) = 0
   \<and> fst (find_file_in_dir 0 7 ''DUMP0'' ex_file (ex_listing True)) = 0"
proof -
  have "equal_ignoring_case ''dump0'' (long_name ex_file)"
    by code_simp
  moreover have "equal_ignoring_case ''DUMP0'' (long_name ex_file)"
    by code_simp
  moreover have "fst (find_file_in_dir 0 7 ''dump0'' ex_file ex_machine) = 0"
    by (simp add: find_file_in_dir.simps fat_read_dir_def ex_machine_def ex_volume_def
        ex_root_def ex_file_def ex_subdir_def)
  moreover have "fst (find_file_in_dir 0 7 ''DUMP0'' ex_file (ex_listing b)) = 0" for b
    by (simp add: ex_listing_eq find_file_in_dir.simps fat_read_dir_def fat_reset_dir_def
        ex_machine_def ex_volume_def ex_root_def ex_file_def ex_subdir_def)
  moreover have "dir_handles ex_machine 7 = Some \<lparr>dd_entry = ex_root, dd_cursor = 0\<rparr>"
    by (simp add: ex_machine_def)
  moreover have "dir_handles (ex_listing False) 7 = Some \<lparr>dd_entry = ex_root, dd_cursor = 2\<rparr>"
    by (simp add: ex_listing_eq)
  ultimately show ?thesis by (simp add: ex_slots ex_listing_slots)
qed

text \<open>C1, amended: the lookup compares with \<^verbatim>\<open>strcmp\<close> and starts at the cursor of the
  handle. It succeeds exactly when some entry at or behind the cursor has a decoded name
  equal to the query character for character, letter case included; it then hands back
  the first such entry, with the place of the entry filled in, and rewinds the cursor.
  Names that differ only in letter case do not match, and entries before the cursor are
  not found.\<close>

theorem lookup_matches_exact_name:
  assumes "dir_handles m dd = Some h"
  shows "(\<forall>i e0. dd_cursor h \<le> i \<and> i < length (dir_slots dd m)
            \<and> dir_slots dd m ! i = Entry e0 \<and> c_str name = c_str (long_name e0)
            \<and> (\<forall>l e. dd_cursor h \<le> l \<and> l < i \<and> dir_slots dd m ! l = Entry e
                   \<longrightarrow> c_str name \<noteq> c_str (long_name e))
          \<longrightarrow> find_file_in_dir fs dd name de m
                = (1, e0\<lparr>entry_dir := cluster (dd_entry h), entry_slot := i\<rparr>, rewind dd h m))
       \<and> ((fst (find_file_in_dir fs dd name de m) \<noteq> 0)
            = (\<exists>i e0. dd_cursor h \<le> i \<and> i < length (dir_slots dd m)
                 \<and> dir_slots dd m ! i = Entry e0 \<and> c_str name = c_str (long_name e0)))"
proof (intro conjI allI impI)
  fix i e0
  assume a: "dd_cursor h \<le> i \<and> i < length (dir_slots dd m)
            \<and> dir_slots dd m ! i = Entry e0 \<and> c_str name = c_str (long_name e0)
            \<and> (\<forall>l e. dd_cursor h \<le> l \<and> l < i \<and> dir_slots dd m ! l = Entry e
                   \<longrightarrow> c_str name \<noteq> c_str (long_name e))"
  have s: "strcmp (long_name e) name = 0 \<longleftrightarrow> c_str name = c_str (long_name e)" for e
    by (auto simp: strcmp_eq_0)
  from a show "find_file_in_dir fs dd name de m
                = (1, e0\<lparr>entry_dir := cluster (dd_entry h), entry_slot := i\<rparr>, rewind dd h m)"
    using find_file_in_dir_first[OF assms, of i e0 name fs de] unfolding s by blast
next
  let ?present = "\<exists>i e0. dd_cursor h \<le> i \<and> i < length (dir_slots dd m)
                 \<and> dir_slots dd m ! i = Entry e0 \<and> c_str name = c_str (long_name e0)"
  show "(fst (find_file_in_dir fs dd name de m) \<noteq> 0) = ?present"
  proof (cases ?present)
    case True
    then obtain i e0 where "dd_cursor h \<le> i" "i < length (dir_slots dd m)"
      "dir_slots dd m ! i = Entry e0" "strcmp (long_name e0) name = 0"
      by (auto simp: strcmp_eq_0)
    from find_file_in_dir_present[OF assms this, of fs de] True show ?thesis by auto
  next
    case False
    with assms have "\<forall>l e. cursor_of dd m \<le> l \<and> l < length (dir_slots dd m)
               \<and> dir_slots dd m ! l = Entry e \<longrightarrow> strcmp (long_name e) name \<noteq> 0"
      by (auto simp: cursor_of_def strcmp_eq_0)
    from find_file_in_dir_miss[OF this, of fs de] False show ?thesis by auto
  qed
qed

theorem lookup_matches_exact_name_witness:
  "find_file_in_dir 0 7 ''DUMP0'' ex_file ex_machine
     = (1, ex_file\<lparr>entry_dir := 0, entry_slot := 1\<rparr>,
        rewind 7 \<lparr>dd_entry = ex_root, dd_cursor = 0\<rparr> ex_machine)
   \<and> fst (find_file_in_dir 0 7 ''dump0'' ex_file ex_machine) = 0"
proof -
  let ?h = "\<lparr>dd_entry = ex_root, dd_cursor = 0\<rparr>"
  have h: "dir_handles ex_machine 7 = Some ?h"
    by (simp add: ex_machine_def)
  have absent: "\<not> (\<exists>i e0. dd_cursor ?h \<le> i \<and> i < length (dir_slots 7 ex_machine)
                 \<and> dir_slots 7 ex_machine ! i = Entry e0
                 \<and> c_str ''dump0'' = c_str (long_name e0))"
  proof
    assume "\<exists>i e0. dd_cursor ?h \<le> i \<and> i < length (dir_slots 7 ex_machine)
                 \<and> dir_slots 7 ex_machine ! i = Entry e0
                 \<and> c_str ''dump0'' = c_str (long_name e0)"
    then obtain i e0 where "i < length (dir_slots 7 ex_machine)"
      "dir_slots 7 ex_machine ! i = Entry e0" and c: "c_str ''dump0'' = c_str (long_name e0)"
      by blast
    then have "Entry e0 \<in> set (dir_slots 7 ex_machine)" by (metis nth_mem)
    then have "e0 = ex_file \<or> e0 = ex_subdir" by (simp add: ex_slots)
    with c show False by (auto simp: ex_file_def ex_subdir_def c_str_def NUL_def)
  qed
  have present: "dd_cursor ?h \<le> 1 \<and> 1 < length (dir_slots 7 ex_machine)
            \<and> dir_slots 7 ex_machine ! 1 = Entry ex_file
            \<and> c_str ''DUMP0'' = c_str (long_name ex_file)
            \<and> (\<forall>l e. dd_cursor ?h \<le> l \<and> l < 1 \<and> dir_slots 7 ex_machine ! l = Entry e
                   \<longrightarrow> c_str ''DUMP0'' \<noteq> c_str (long_name e))"
    by (simp add: ex_slots ex_file_def)
  have a: "find_file_in_dir 0 7 ''DUMP0'' ex_file ex_machine
     = (1, ex_file\<lparr>entry_dir := cluster (dd_entry ?h), entry_slot := 1\<rparr>, rewind 7 ?h ex_machine)"
    using lookup_matches_exact_name [OF h, of "''DUMP0''" 0 ex_file] present by blast
  have b: "fst (find_file_in_dir 0 7 ''dump0'' ex_file ex_machine) = 0"
    using lookup_matches_exact_name [OF h, of "''dump0''" 0 ex_file] absent by blast
  from a b show ?thesis by (simp add: ex_root_def)
qed

subsection \<open>Reading a line\<close>

text \<open>C10: \<^verbatim>\<open>read_line\<close> returns 0 both when the line received is empty (a newline
  arrives within the polling budget, that is after the queue was found empty at most 1001
  times) and when nothing arrives within the budget (no character at all, or one that
  comes later). In all three cases the buffer is left zeroed alike, so neither the result
  nor the buffer tells the cases apart; and the loop of \<^verbatim>\<open>cmd_write\<close> ends in each of them
  after the prompt, without a write and without a message, in states that differ only in
  the receive side.\<close>

theorem read_line_zero_is_ambiguous:
  assumes "d \<le> 1001" and "1001 < d'"
  shows "read_line buffer n (m\<lparr>rx := (d, CHR 0x0A) # r\<rparr>)
           = (0, memset buffer n, if 2 \<le> n then m\<lparr>rx := r\<rparr> else m\<lparr>rx := (d, CHR 0x0A) # r\<rparr>)
       \<and> read_line buffer n (m\<lparr>rx := []\<rparr>) = (0, memset buffer n, m\<lparr>rx := []\<rparr>)
       \<and> read_line buffer n (m\<lparr>rx := (d', c) # r'\<rparr>)
           = (0, memset buffer n,
              if 2 \<le> n then m\<lparr>rx := (d' - 1002, c) # r'\<rparr> else m\<lparr>rx := (d', c) # r'\<rparr>)
       \<and> cmd_write_loop fd (m\<lparr>rx := (d, CHR 0x0A) # r\<rparr>)
           = (uart_putc (CHR '' '') (uart_putc (CHR ''<'') m))
               \<lparr>rx := r, global_buffer := memset (global_buffer m) 20\<rparr>
       \<and> cmd_write_loop fd (m\<lparr>rx := []\<rparr>)
           = (uart_putc (CHR '' '') (uart_putc (CHR ''<'') m))
               \<lparr>rx := [], global_buffer := memset (global_buffer m) 20\<rparr>
       \<and> cmd_write_loop fd (m\<lparr>rx := (d', c) # r'\<rparr>)
           = (uart_putc (CHR '' '') (uart_putc (CHR ''<'') m))
               \<lparr>rx := (d' - 1002, c) # r', global_buffer := memset (global_buffer m) 20\<rparr>"
proof -
  have p0: "rx_poll 0 (x\<lparr>rx := []\<rparr>) = (False, x\<lparr>rx := []\<rparr>)" for x :: machine
    by (rule rx_poll_none) simp
  have p1: "rx_poll 0 (x\<lparr>rx := (d', c) # r'\<rparr>) = (False, x\<lparr>rx := (d' - 1002, c) # r'\<rparr>)"
    for x :: machine
    using rx_poll_late[of "x\<lparr>rx := (d', c) # r'\<rparr>" d' c r' 0] assms(2) by simp
  have a: "read_line b k (x\<lparr>rx := (d, CHR 0x0A) # r\<rparr>)
           = (0, memset b k, if 2 \<le> k then x\<lparr>rx := r\<rparr> else x\<lparr>rx := (d, CHR 0x0A) # r\<rparr>)"
    for b k and x :: machine
    using read_line_empty_line[of "x\<lparr>rx := (d, CHR 0x0A) # r\<rparr>" d r b k] assms(1) by simp
  have b: "read_line b k (x\<lparr>rx := []\<rparr>) = (0, memset b k, x\<lparr>rx := []\<rparr>)"
    for b k and x :: machine
    using read_line_timeout[OF p0, of b k x] by simp
  have c: "read_line b k (x\<lparr>rx := (d', c) # r'\<rparr>)
           = (0, memset b k,
              if 2 \<le> k then x\<lparr>rx := (d' - 1002, c) # r'\<rparr> else x\<lparr>rx := (d', c) # r'\<rparr>)"
    for b k and x :: machine
    using read_line_timeout[OF p1, of b k x] by simp
  have u: "uart_putc ch (x\<lparr>rx := q\<rparr>) = (uart_putc ch x)\<lparr>rx := q\<rparr>" for ch q and x :: machine
    by (simp add: uart_putc_def)
  have la: "cmd_write_loop fd (m\<lparr>rx := (d, CHR 0x0A) # r\<rparr>)
           = (uart_putc (CHR '' '') (uart_putc (CHR ''<'') m))
               \<lparr>rx := r, global_buffer := memset (global_buffer m) 20\<rparr>"
    by (rule trans[OF cmd_write_loop_stop]) (simp_all add: u a)
  have lb: "cmd_write_loop fd (m\<lparr>rx := []\<rparr>)
           = (uart_putc (CHR '' '') (uart_putc (CHR ''<'') m))
               \<lparr>rx := [], global_buffer := memset (global_buffer m) 20\<rparr>"
    by (rule trans[OF cmd_write_loop_stop]) (simp_all add: u b)
  have lc: "cmd_write_loop fd (m\<lparr>rx := (d', c) # r'\<rparr>)
           = (uart_putc (CHR '' '') (uart_putc (CHR ''<'') m))
               \<lparr>rx := (d' - 1002, c) # r', global_buffer := memset (global_buffer m) 20\<rparr>"
    by (rule trans[OF cmd_write_loop_stop]) (simp_all add: u c)
  from a b c la lb lc show ?thesis by simp
qed

theorem read_line_zero_is_ambiguous_witness:
  "read_line ''abc'' 3 (ex_machine\<lparr>rx := [(5, CHR 0x0A)]\<rparr>)
     = (0, [NUL, NUL, NUL], ex_machine\<lparr>rx := []\<rparr>)
   \<and> read_line ''abc'' 3 (ex_machine\<lparr>rx := [(2000, CHR ''x'')]\<rparr>)
     = (0, [NUL, NUL, NUL], ex_machine\<lparr>rx := [(998, CHR ''x'')]\<rparr>)"
proof -
  have d: "(5::nat) \<le> 1001" and d': "(1001::nat) < 2000" by simp_all
  show ?thesis
    using read_line_zero_is_ambiguous [OF d d', where buffer = "''abc''" and n = 3 and m = ex_machine and r = "[]"
        and c = "CHR ''x''" and r' = "[]"]
    by (simp add: memset_def)
qed

subsection \<open>Changing the directory\<close>

text \<open>C8: after \<^verbatim>\<open>cmd_cd\<close> returns, the directory handle of the caller is the one it passed.
  \<^verbatim>\<open>cmd_cd\<close> gets the handle by value: either its own \<^verbatim>\<open>dd\<close> still holds that handle when
  it returns, or (the change of directory succeeded) it holds the handle just opened on the
  directory of the given name, and the handle of the caller has been closed. The new handle
  reaches nobody; the caller goes on with the old one. Handles are handed out above
  \<open>next_handle\<close>, so the handle passed lies at or below it.\<close>

theorem cmd_cd_keeps_callers_handle:
  assumes "dd \<le> next_handle m"
  shows "fst (snd (exec_cmd_cd fs dd command m)) = dd
       \<and> snd (snd (exec_cmd_cd fs dd command m)) = snd (cmd_cd fs dd command m)
       \<and> (fst (cmd_cd fs dd command m) = dd
          \<or> (fst (cmd_cd fs dd command m) = Suc (next_handle m)
              \<and> dir_handles (snd (cmd_cd fs dd command m)) dd = None
              \<and> (\<exists>e. dir_handles (snd (cmd_cd fs dd command m)) (Suc (next_handle m))
                         = Some \<lparr>dd_entry = e, dd_cursor = 0\<rparr>
                     \<and> strcmp (long_name e) (drop 3 command) = 0)))"
proof -
  have caller: "fst (snd (exec_cmd_cd fs dd command m)) = dd
       \<and> snd (snd (exec_cmd_cd fs dd command m)) = snd (cmd_cd fs dd command m)"
    by (simp add: exec_cmd_cd_def split: prod.splits)
  let ?name = "drop 3 command"
  have "fst (cmd_cd fs dd command m) = dd
          \<or> (fst (cmd_cd fs dd command m) = Suc (next_handle m)
              \<and> dir_handles (snd (cmd_cd fs dd command m)) dd = None
              \<and> (\<exists>e. dir_handles (snd (cmd_cd fs dd command m)) (Suc (next_handle m))
                         = Some \<lparr>dd_entry = e, dd_cursor = 0\<rparr>
                     \<and> strcmp (long_name e) ?name = 0))"
  proof (cases "c_str ?name = []")
    case True
    then show ?thesis by (simp add: cmd_cd_def cd_not_found_def)
  next
    case False
    from find_file_in_dir_result[of fs dd ?name indeterminate_entry m]
    show ?thesis
    proof (elim disjE exE conjE)
      fix e' assume "find_file_in_dir fs dd ?name indeterminate_entry m = (0, e', exhaust dd m)"
      with False show ?thesis by (simp add: cmd_cd_def cd_not_found_def)
    next
      fix h e'
      assume h: "dir_handles m dd = Some h"
        and f: "find_file_in_dir fs dd ?name indeterminate_entry m = (1, e', rewind dd h m)"
        and n: "strcmp (long_name e') ?name = 0"
      show ?thesis
      proof (cases "attributes e' AND FAT_ATTRIB_DIR = 0")
        case True
        with False f show ?thesis by (simp add: cmd_cd_def cd_not_found_def fat_open_dir_def)
      next
        case nd: False
        have ne: "dd \<noteq> Suc (next_handle m)" using assms by simp
        from False f nd ne n show ?thesis
          by (simp add: cmd_cd_def cd_not_found_def fat_open_dir_def fat_close_dir_def rewind_def Let_def)
      qed
    qed
  qed
  with caller show ?thesis by simp
qed

theorem cmd_cd_keeps_callers_handle_witness:
  "exec_cmd_cd 0 7 ''cd SUB'' ex_machine
     = (1, 7, ex_machine\<lparr>dir_handles := [8 \<mapsto> \<lparr>dd_entry = ex_subdir\<lparr>entry_slot := 2\<rparr>, dd_cursor = 0\<rparr>],
                          next_handle := 8\<rparr>)
   \<and> fst (cmd_cd 0 7 ''cd SUB'' ex_machine) = 8"
proof -
  have h: "(7::nat) \<le> next_handle ex_machine" by (simp add: ex_machine_def)
  have e2: "(2::nat) = Suc (Suc 0)" by simp
  have c: "cmd_cd 0 7 ''cd SUB'' ex_machine
     = (8, ex_machine\<lparr>dir_handles := [8 \<mapsto> \<lparr>dd_entry = ex_subdir\<lparr>entry_slot := 2\<rparr>, dd_cursor = 0\<rparr>],
                          next_handle := 8\<rparr>)"
    unfolding e2
    by (simp add: cmd_cd_def cd_not_found_def find_file_in_dir.simps fat_read_dir_def fat_reset_dir_def
        fat_open_dir_def fat_close_dir_def c_str_def NUL_def FAT_ATTRIB_DIR_def
        ex_machine_def ex_volume_def ex_root_def ex_file_def ex_subdir_def
        indeterminate_entry_def Let_def)
  show ?thesis
    using cmd_cd_keeps_callers_handle [OF h, of 0 "''cd SUB''"] c
    by (simp add: exec_cmd_cd_def)
qed

subsection \<open>Partition table and FAT width\<close>

text \<open>C5: the superfloppy fallback. For every block device whose sector 0 lacks the
  boot-signature bytes, or whose requested partition slot is empty, and a selector that
  requests "auto", opening the partition yields the partition that starts at sector 0 and
  has the full size of the device; this is also what the two calls in \<^verbatim>\<open>main\<close> yield.\<close>

theorem superfloppy_fallback:
  assumes "auto sel"
    and "\<not> has_boot_signature dev
         \<or> (\<exists>i. wanted sel = Slot i \<and> slot_empty (table_entry dev i))"
  shows "partition_open dev sel
           = Some \<lparr>start_sector = 0, sector_count = device_size dev, type_code = 0\<rparr>
       \<and> (wanted sel = Slot 0 \<longrightarrow> main_open_partition dev = partition_open dev sel)"
  using assms
  by (cases sel)
     (auto simp: partition_open_def main_open_partition_def whole_device_def select_entry_def)

theorem superfloppy_fallback_witness:
  "partition_open ex_blank_device \<lparr>wanted = Slot 0, auto = True\<rparr>
     = Some \<lparr>start_sector = 0, sector_count = 4096, type_code = 0\<rparr>
   \<and> main_open_partition ex_blank_device
     = Some \<lparr>start_sector = 0, sector_count = 4096, type_code = 0\<rparr>"
proof -
  have a: "auto \<lparr>wanted = Slot 0, auto = True\<rparr>" by simp
  have b: "\<not> has_boot_signature ex_blank_device
           \<or> (\<exists>i. wanted \<lparr>wanted = Slot 0, auto = True\<rparr> = Slot i
                 \<and> slot_empty (table_entry ex_blank_device i))"
    by (simp add: has_boot_signature_def ex_blank_device_def)
  show ?thesis
    using superfloppy_fallback [OF a b] by (simp add: ex_blank_device_def)
qed

text \<open>C6: the FAT width fixed at mount is a function of the computed total cluster count
  alone, by the thresholds 4,085 and 65,525: 4,084 clusters give 12 bits and 4,086 give 16
  bits, and any two mounts with the same cluster count give the same width, whatever the
  type codes stored with their partitions.\<close>

theorem fat_width_from_cluster_count:
  assumes "mount p b = Inr d"
  shows "total_cluster_count d = count_clusters b
       \<and> fat_width d = (if total_cluster_count d < 4085 then 12
                         else if total_cluster_count d < 65525 then 16 else 32)
       \<and> (total_cluster_count d = 4084 \<longrightarrow> fat_width d = 12)
       \<and> (total_cluster_count d = 4086 \<longrightarrow> fat_width d = 16)
       \<and> (\<forall>p' b' d'. mount p' b' = Inr d' \<and> total_cluster_count d' = total_cluster_count d
              \<longrightarrow> fat_width d' = fat_width d)"
  using assms by (auto simp: mount_def fat_width_of_def split: if_splits)

theorem fat_width_from_cluster_count_witness:
  "fat_width_of 4084 = 12 \<and> fat_width_of 4086 = 16
   \<and> (\<exists>d. mount \<lparr>start_sector = 0, sector_count = 16343, type_code = 0x0B\<rparr> (ex_bpb 4084) = Inr d
          \<and> total_cluster_count d = 4084 \<and> fat_width d = 12)
   \<and> (\<exists>d. mount \<lparr>start_sector = 0, sector_count = 16351, type_code = 0x01\<rparr> (ex_bpb 4086) = Inr d
          \<and> total_cluster_count d = 4086 \<and> fat_width d = 16)"
proof -
  have a: "mount \<lparr>start_sector = 0, sector_count = 16343, type_code = 0x0B\<rparr> (ex_bpb 4084)
             = Inr \<lparr>geometry = ex_bpb 4084, total_cluster_count = 4084, fat_width = 12\<rparr>"
    by (simp add: mount_def ex_bpb_def count_clusters_def fat_width_of_def)
  have b: "mount \<lparr>start_sector = 0, sector_count = 16351, type_code = 0x01\<rparr> (ex_bpb 4086)
             = Inr \<lparr>geometry = ex_bpb 4086, total_cluster_count = 4086, fat_width = 16\<rparr>"
    by (simp add: mount_def ex_bpb_def count_clusters_def fat_width_of_def)
  show ?thesis
    using fat_width_from_cluster_count [OF a] fat_width_from_cluster_count [OF b] a b
    by (simp add: fat_width_of_def)
qed

subsection \<open>Writing and reading files\<close>

text \<open>C3: a partial write on exhaustion is not an error. Let the first part of a buffer,
  written alone, be written in full, and let the file then need a cluster while none is
  free. Then writing the whole buffer returns a count, the length of that first part, not a
  failure value, and leaves the state of the shorter write. The count is less than the
  length requested, which is how the caller sees it: the loop of \<^verbatim>\<open>cmd_write\<close>, having
  read these bytes as a line, compares the count with the length, prints its message and
  stops.\<close>

theorem partial_write_is_not_an_error:
  assumes "fat_write_file fd written m = (Inr (length written), m1)"
    and "file_handles m1 fd = Some f1"
    and "needs_cluster (volume m1) f1"
    and "allocate_cluster (volume m1) = None"
    and "rest \<noteq> []"
  shows "fat_write_file fd (written @ rest) m = (Inr (length written), m1)
       \<and> length written < length (written @ rest)
       \<and> (\<forall>m0 data_len buffer mr.
             read_line (global_buffer m0) 20 (uart_putc (CHR '' '') (uart_putc (CHR ''<'') m0))
               = (data_len, buffer, mr)
             \<and> m = mr\<lparr>global_buffer := buffer\<rparr>
             \<and> data_len = length (written @ rest)
             \<and> map of_char (take data_len buffer) = written @ rest
             \<longrightarrow> cmd_write_loop fd m0 = uart_puts_p ''error writing to file\<newline>'' m1)"
proof -
  from assms(1) obtain f where f: "file_handles m fd = Some f"
    by (auto simp: fat_write_file_def split: option.splits)
  obtain r v1 f' where w: "write_bytes written 0 (volume m) f = (r, v1, f')"
    by (cases "write_bytes written 0 (volume m) f") auto
  from assms(1) f w have r: "r = Inr (length written)"
    and m1: "m1 = m\<lparr>volume := v1, file_handles := (file_handles m) (fd \<mapsto> grow_size f')\<rparr>"
    by (auto simp: fat_write_file_def)
  from m1 assms(2) have f1: "f1 = grow_size f'" and v1: "volume m1 = v1" by auto
  from assms(3,4) f1 v1 have ns: "write_cluster v1 f' = Inl NoSpace"
    by (simp add: write_cluster_NoSpace)
  from assms(5) obtain b bs where rest: "rest = b # bs" by (cases rest) auto
  from w r have "write_bytes written 0 (volume m) f = (Inr (0 + length written), v1, f')" by simp
  from write_bytes_append[OF this, of rest]
  have "write_bytes (written @ rest) 0 (volume m) f = (Inr (length written), v1, f')"
    using ns rest by simp
  with f m1 have full: "fat_write_file fd (written @ rest) m = (Inr (length written), m1)"
    by (simp add: fat_write_file_def)
  have short: "length written < length (written @ rest)" using assms(5) by (cases rest) auto
  have caller: "cmd_write_loop fd m0 = uart_puts_p ''error writing to file\<newline>'' m1"
    if "read_line (global_buffer m0) 20 (uart_putc (CHR '' '') (uart_putc (CHR ''<'') m0))
               = (data_len, buffer, mr)"
      "m = mr\<lparr>global_buffer := buffer\<rparr>" "data_len = length (written @ rest)"
      "map of_char (take data_len buffer) = written @ rest"
    for m0 data_len buffer mr
  proof (rule cmd_write_loop_short[OF that(1)])
    show "data_len \<noteq> 0" using that(3) short by simp
    show "fat_write_file fd (map of_char (take data_len buffer)) (mr\<lparr>global_buffer := buffer\<rparr>)
           = (Inr (length written), m1)"
      using full that(2,4) by simp
    show "length written \<noteq> data_len" using that(3) short by simp
  qed
  from full short caller show ?thesis by blast
qed

theorem partial_write_is_not_an_error_witness:
  "fat_write_file 8 ([1, 2, 3, 4, 5, 6, 7, 8] @ [9, 10]) ex_open
     = (Inr 8, snd (fat_write_file 8 [1, 2, 3, 4, 5, 6, 7, 8] ex_open))"
proof -
  let ?m1 = "snd (fat_write_file 8 [1, 2, 3, 4, 5, 6, 7, 8] ex_open)"
  have len: "length [1, 2, 3, 4, 5, 6, 7, 8 :: uint8_t] = 8" by simp
  let ?f1 = "\<lparr>fd_entry = ex_file\<lparr>entry_slot := 1, cluster := 3, file_size := 8\<rparr>,
               fd_pos = 8, fd_cluster = 4\<rparr>"
  have a: "fat_write_file 8 [1, 2, 3, 4, 5, 6, 7, 8] ex_open
             = (Inr (length [1, 2, 3, 4, 5, 6, 7, 8 :: uint8_t]), ?m1)"
    using ex_write8[THEN conjunct1] by (simp only: len)
  have b: "file_handles ?m1 8 = Some ?f1" using ex_write8 by simp
  have vcs: "cluster_size (volume ?m1) = 4"
    by (simp add: ex_open_eq fat_write_file_def write_cluster_def allocate_cluster_def
      scan_order_def get_next_cluster_def set_next_cluster_def store_byte_def grow_size_def
      ex_machine_def ex_volume_def ex_file_def upt_2_5 Let_def)
  have c: "needs_cluster (volume ?m1) ?f1"
    using ex_write8 by (simp add: needs_cluster_def vcs)
  have d: "allocate_cluster (volume ?m1) = None" using ex_write8 by simp
  have e: "[9, 10 :: uint8_t] \<noteq> []" by simp
  show ?thesis
    using partial_write_is_not_an_error [OF a b c d e] by (simp only: len)
qed

text \<open>C4: \<^verbatim>\<open>fat_read_file\<close> returns fewer bytes than requested only at the end of the file,
  and never more than the file holds. Whenever a read of \<open>n\<close> bytes returns data, their
  number is at most \<open>n\<close>; if it is less than \<open>n\<close>, the position has reached the size of
  the file; the position never passes the size, and it advances by the number of bytes
  returned. And a read does return data when the chain of the file is intact: then the
  data are the bytes stored at the positions read.\<close>

theorem short_read_only_at_end_of_file:
  assumes "file_handles m fd = Some f"
  shows "(\<forall>data m'. fat_read_file fd n m = (Inr data, m') \<longrightarrow>
            length data \<le> n
            \<and> (length data < n \<longrightarrow> file_size (fd_entry f) \<le> fd_pos f + length data)
            \<and> (fd_pos f \<le> file_size (fd_entry f) \<longrightarrow>
                 fd_pos f + length data \<le> file_size (fd_entry f))
            \<and> (\<exists>g. file_handles m' fd = Some g \<and> fd_pos g = fd_pos f + length data))
       \<and> (links (volume m) cl \<and> 0 < cluster_size (volume m)
          \<and> (fd_pos f < file_size (fd_entry f) \<longrightarrow>
                fd_cluster f = cl ! ((fd_pos f - 1) div cluster_size (volume m))
                \<and> (file_size (fd_entry f) - 1) div cluster_size (volume m) < length cl)
          \<longrightarrow> fst (fat_read_file fd n m)
                = Inr (map (file_byte (volume m) cl)
                        [fd_pos f ..< fd_pos f + min n (file_size (fd_entry f) - fd_pos f)]))"
proof (intro conjI allI impI)
  fix data m'
  assume r: "fat_read_file fd n m = (Inr data, m')"
  obtain x g where rb: "read_bytes n (volume m) f = (x, g)"
    by (cases "read_bytes n (volume m) f") auto
  with r assms have x: "x = Inr data"
    and m': "m' = m\<lparr>file_handles := (file_handles m) (fd \<mapsto> g)\<rparr>"
    by (auto simp: fat_read_file_def)
  from read_bytes_length[OF rb[unfolded x]]
  have l: "length data = min n (file_size (fd_entry f) - fd_pos f)"
    and g: "fd_pos g = fd_pos f + length data" by auto
  from l show "length data \<le> n" by simp
  from l show "length data < n \<Longrightarrow> file_size (fd_entry f) \<le> fd_pos f + length data" by arith
  from l show "fd_pos f \<le> file_size (fd_entry f) \<Longrightarrow>
                 fd_pos f + length data \<le> file_size (fd_entry f)" by arith
  from g m' show "\<exists>g. file_handles m' fd = Some g \<and> fd_pos g = fd_pos f + length data" by simp
next
  assume a: "links (volume m) cl \<and> 0 < cluster_size (volume m)
          \<and> (fd_pos f < file_size (fd_entry f) \<longrightarrow>
                fd_cluster f = cl ! ((fd_pos f - 1) div cluster_size (volume m))
                \<and> (file_size (fd_entry f) - 1) div cluster_size (volume m) < length cl)"
  then have "\<exists>g. read_bytes n (volume m) f
           = (Inr (map (file_byte (volume m) cl)
                     [fd_pos f ..< fd_pos f + min n (file_size (fd_entry f) - fd_pos f)]), g)"
    by (intro read_bytes_chain) auto
  with assms show "fst (fat_read_file fd n m)
                = Inr (map (file_byte (volume m) cl)
                        [fd_pos f ..< fd_pos f + min n (file_size (fd_entry f) - fd_pos f)])"
    by (auto simp: fat_read_file_def)
qed

theorem short_read_only_at_end_of_file_witness:
  "fst (fat_read_file 8 8 ex_written) = Inr [1, 2, 3, 4, 5, 6]"
proof -
  let ?f = "\<lparr>fd_entry = ex_file\<lparr>entry_slot := 1, cluster := 3, file_size := 6\<rparr>,
             fd_pos = 0, fd_cluster = 3\<rparr>"
  have h: "file_handles ex_written 8 = Some ?f" using ex_written_eq by simp
  have u: "[0..<6] = [0, 1, 2, 3, 4, 5::nat]" by code_simp
  show ?thesis
    using short_read_only_at_end_of_file [OF h, of 8 "[3, 4]"] ex_written_eq
    by (simp add: u)
qed




end
